(* ===== verification/Prelude.thy ===== *)
theory Prelude
  imports Main "HOL-Library.Word" "HOL-Library.AList" "HOL-Library.Sublist"
begin

text \<open>
  Shared vocabulary of the development. JavaScript strings are sequences of UTF-16 code
  units, so a string of the program is a list of \<open>16 word\<close> values (\<open>jstr\<close>); the
  bytes of a \<open>File\<close> or of a \<open>Uint8Array\<close> are \<open>8 word\<close> values. String literals
  of the source are written \<open>js ''...''\<close>, which converts an ASCII literal into its code
  units. The theory also holds the ECMAScript string built-ins the widget calls
  (\<open>startsWith\<close>, \<open>endsWith\<close>, \<open>split\<close> with a one-unit separator) and the list
  lemmas the components share.
\<close>

type_synonym byte = "8 word"
type_synonym code_unit = "16 word"
type_synonym jstr = "code_unit list"

named_theorems js_lit "equations that evaluate JavaScript string literals"

definition js :: "string \<Rightarrow> jstr" where
  "js s = map (\<lambda>c. of_nat (of_char c)) s"

declare js_def [js_lit]

text \<open>
  The exceptions the modelled code can raise: \<open>QuotaExceededError\<close> from
  \<open>localStorage.setItem\<close>, \<open>InvalidCharacterError\<close> from \<open>atob\<close>,
  \<open>SyntaxError\<close> from \<open>JSON.parse\<close>, \<open>TypeError\<close> from the render when a
  value is not the array the code expects, and React's error for an object rendered as a
  child (\<open>InvalidChildError\<close>).
\<close>

datatype js_error =
    QuotaExceededError | InvalidCharacterError | SyntaxError | TypeError | InvalidChildError

section \<open>ECMAScript string built-ins\<close>

text \<open>\<open>s.startsWith(p)\<close> and \<open>s.endsWith(p)\<close> (ECMA-262, 22.1.3).\<close>

definition starts_with :: "jstr \<Rightarrow> jstr \<Rightarrow> bool" where
  "starts_with s p \<longleftrightarrow> take (length p) s = p"

definition ends_with :: "jstr \<Rightarrow> jstr \<Rightarrow> bool" where
  "ends_with s p \<longleftrightarrow> length p \<le> length s \<and> drop (length s - length p) s = p"

text \<open>
  \<open>s.split(c)\<close> for a separator of one code unit: the pieces between the separators,
  in order; a string without the separator is one piece, and the empty string gives
  \<open>[""]\<close>.
\<close>

fun js_split :: "code_unit \<Rightarrow> jstr \<Rightarrow> jstr list" where
  "js_split c [] = [[]]"
| "js_split c (x # xs) =
     (if x = c then [] # js_split c xs
      else (case js_split c xs of [] \<Rightarrow> [[x]] | w # ws \<Rightarrow> (x # w) # ws))"

text \<open>The ECMAScript line terminators, which the regular-expression \<open>.\<close> does not match.\<close>

definition is_line_terminator :: "code_unit \<Rightarrow> bool" where
  "is_line_terminator c \<longleftrightarrow> c = 0x0A \<or> c = 0x0D \<or> c = 0x2028 \<or> c = 0x2029"

text \<open>Running a list of computations that may throw, stopping at the first exception.\<close>

fun seq_sum :: "('e + 'a) list \<Rightarrow> 'e + 'a list" where
  "seq_sum [] = Inr []"
| "seq_sum (x # xs) =
     (case x of Inl e \<Rightarrow> Inl e | Inr a \<Rightarrow> (case seq_sum xs of Inl e \<Rightarrow> Inl e | Inr as \<Rightarrow> Inr (a # as)))"

section \<open>Shared lemmas\<close>

lemma seq_sum_map_Inr [simp]: "seq_sum (map (\<lambda>x. Inr (f x)) xs) = Inr (map f xs)"
  by (induction xs) auto


lemma js_append [simp]: "js (a @ b) = js a @ js b"
  by (simp add: js_def)

lemma length_js [simp]: "length (js s) = length s"
  by (simp add: js_def)

lemma js_split_nonempty [simp]: "js_split c xs \<noteq> []"
  by (induction xs) (auto split: list.splits)

lemma js_split_no_sep: "c \<notin> set xs \<Longrightarrow> js_split c xs = [xs]"
  by (induction xs) auto

lemma js_split_append_sep:
  "c \<notin> set xs \<Longrightarrow> js_split c (xs @ c # ys) = xs # js_split c ys"
  by (induction xs) auto

lemma starts_with_append [simp]: "starts_with (p @ s) p"
  by (simp add: starts_with_def)

lemma ends_with_append [simp]: "ends_with (s @ p) p"
  by (simp add: ends_with_def)

lemma ends_with_suffix: "ends_with s p \<longleftrightarrow> suffix p s"
proof
  assume "ends_with s p"
  then have "s = take (length s - length p) s @ p"
    by (metis append_take_drop_id ends_with_def)
  then show "suffix p s" unfolding suffix_def by blast
next
  assume "suffix p s"
  then obtain zs where "s = zs @ p" by (auto simp: suffix_def)
  then show "ends_with s p" by (simp add: ends_with_def)
qed

lemma unat_byte_lt: "unat (b :: byte) < 256"
  using unsigned_less [of b] by simp

lemma ucast_ucast_byte [simp]: "(ucast (ucast (b :: byte) :: code_unit) :: byte) = b"
  by (rule ucast_up_ucast_id) (simp add: is_up)

end
