(* ===== verification/LocalStorage.thy ===== *)
theory LocalStorage
  imports Prelude
begin

text \<open>
  The browser's \<open>localStorage\<close> (HTML Living Standard, Web Storage), which the widget
  uses as its only durable state. It is a string-keyed, string-valued map whose total
  size (code units of all keys and values) is bounded by a quota; \<open>setItem\<close> throws
  \<open>QuotaExceededError\<close> and leaves the map unchanged when the new map would not fit.
  The map is an association list with distinct keys, kept in insertion order as the
  standard's \<open>key(i)\<close> order is.
\<close>

record storage =
  items :: "(jstr \<times> jstr) list"
  quota :: nat

definition used_units :: "(jstr \<times> jstr) list \<Rightarrow> nat" where
  "used_units its = sum_list (map (\<lambda>(k, v). length k + length v) its)"

definition getItem :: "storage \<Rightarrow> jstr \<Rightarrow> jstr option" where
  "getItem st k = map_of (items st) k"

text \<open>
  \<open>setItem(key, value)\<close>: storing the value a key already has changes nothing;
  otherwise the updated map is kept if it fits the quota, else the call throws.
\<close>

definition setItem :: "storage \<Rightarrow> jstr \<Rightarrow> jstr \<Rightarrow> js_error + storage" where
  "setItem st k v =
     (if map_of (items st) k = Some v then Inr st
      else (let its = AList.update k v (items st)
            in if used_units its \<le> quota st then Inr (st\<lparr>items := its\<rparr>)
               else Inl QuotaExceededError))"

definition removeItem :: "storage \<Rightarrow> jstr \<Rightarrow> storage" where
  "removeItem st k = st\<lparr>items := AList.delete k (items st)\<rparr>"

text \<open>
  A run of \<open>setItem\<close> statements, as a handler executes them one after the other: an
  exception stops the run, and the writes before it stay.
\<close>

fun set_items :: "storage \<Rightarrow> (jstr \<times> jstr) list \<Rightarrow> storage \<times> js_error option" where
  "set_items st [] = (st, None)"
| "set_items st ((k, v) # kvs) =
     (case setItem st k v of
        Inl e \<Rightarrow> (st, Some e)
      | Inr st' \<Rightarrow> set_items st' kvs)"

definition wf_storage :: "storage \<Rightarrow> bool" where
  "wf_storage st \<longleftrightarrow> distinct (map fst (items st)) \<and> used_units (items st) \<le> quota st"

definition empty_storage :: "nat \<Rightarrow> storage" where
  "empty_storage q = \<lparr>items = [], quota = q\<rparr>"

section \<open>Properties of the storage operations\<close>

lemma setItem_quota: "setItem st k v = Inr st' \<Longrightarrow> quota st' = quota st"
  by (auto simp: setItem_def Let_def split: if_splits)

lemma setItem_Inl:
  "setItem st k v = Inl e \<Longrightarrow>
     e = QuotaExceededError \<and> quota st < used_units (AList.update k v (items st))"
  by (auto simp: setItem_def Let_def split: if_splits)

lemma getItem_setItem:
  "setItem st k v = Inr st' \<Longrightarrow> getItem st' k' = (if k' = k then Some v else getItem st k')"
  by (auto simp: setItem_def getItem_def Let_def update_conv' split: if_splits)

lemma setItem_wf: "wf_storage st \<Longrightarrow> setItem st k v = Inr st' \<Longrightarrow> wf_storage st'"
  by (auto simp: setItem_def wf_storage_def Let_def distinct_update split: if_splits)

lemma getItem_removeItem:
  "getItem (removeItem st k) k' = (if k' = k then None else getItem st k')"
  by (simp add: getItem_def removeItem_def delete_conv')

lemma removeItem_idem: "removeItem (removeItem st k) k = removeItem st k"
  by (simp add: removeItem_def delete_idem)

lemma used_units_delete: "used_units (AList.delete k its) \<le> used_units its"
  by (induction its) (auto simp: used_units_def)

lemma removeItem_wf: "wf_storage st \<Longrightarrow> wf_storage (removeItem st k)"
  using used_units_delete [of k "items st"]
  by (auto simp: wf_storage_def removeItem_def distinct_delete)

lemma set_items_wf: "wf_storage st \<Longrightarrow> set_items st kvs = (st', r) \<Longrightarrow> wf_storage st'"
  by (induction st kvs rule: set_items.induct)
     (auto simp: setItem_wf split: sum.splits)

lemma set_items_quota: "set_items st kvs = (st', r) \<Longrightarrow> quota st' = quota st"
  by (induction st kvs rule: set_items.induct)
     (auto dest: setItem_quota split: sum.splits)

lemma set_items_error: "set_items st kvs = (st', Some e) \<Longrightarrow> e = QuotaExceededError"
  by (induction st kvs rule: set_items.induct)
     (auto dest: setItem_Inl split: sum.splits)

text \<open>A run that does not throw leaves each key with the last value written to it.\<close>

lemma set_items_get:
  "set_items st kvs = (st', None) \<Longrightarrow>
     getItem st' k = (case map_of (rev kvs) k of Some v \<Rightarrow> Some v | None \<Rightarrow> getItem st k)"
proof (induction st kvs arbitrary: st' rule: set_items.induct)
  case (1 st)
  then show ?case by simp
next
  case (2 st k0 v kvs)
  then obtain st1 where s1: "setItem st k0 v = Inr st1" and run: "set_items st1 kvs = (st', None)"
    by (auto split: sum.splits)
  from "2.IH" [OF s1 run] getItem_setItem [OF s1]
  show ?case by (auto simp: map_of_append split: option.splits)
qed

text \<open>A run that throws stops at the first failing write: the writes before it are kept.\<close>

lemma set_items_torn:
  "set_items st kvs = (st', Some e) \<Longrightarrow>
     \<exists>pre k v post. kvs = pre @ (k, v) # post \<and> set_items st pre = (st', None) \<and> setItem st' k v = Inl e"
proof (induction st kvs rule: set_items.induct)
  case (1 st)
  then show ?case by simp
next
  case (2 st k0 v0 kvs)
  show ?case
  proof (cases "setItem st k0 v0")
    case (Inl e0)
    with "2.prems" have "(k0, v0) # kvs = [] @ (k0, v0) # kvs \<and> set_items st [] = (st', None) \<and>
        setItem st' k0 v0 = Inl e" by auto
    then show ?thesis by blast
  next
    case (Inr st1)
    with "2.prems" "2.IH" obtain pre k v post where
      "kvs = pre @ (k, v) # post" "set_items st1 pre = (st', None)" "setItem st' k v = Inl e"
      by auto
    with Inr show ?thesis by (intro exI [of _ "(k0, v0) # pre"]) auto
  qed
qed

end
