(* ===== verification/Base64.thy ===== *)
theory Base64
  imports Prelude
begin

text \<open>
  Base64 as the browser does it. The encoder is RFC 4648, section 4 (with \<open>=\<close>
  padding), which \<open>FileReader.readAsDataURL\<close> applies to the file's bytes. The decoder is
  the HTML standard's \<^emph>\<open>forgiving-base64 decode\<close>, which \<open>atob\<close> runs: ASCII
  whitespace is removed, one or two trailing \<open>=\<close> are dropped when the length is a
  multiple of four, a length of \<open>1 mod 4\<close> or a character outside the alphabet is a
  failure (\<open>atob\<close> throws \<open>InvalidCharacterError\<close>), and the leftover bits of a
  final group are discarded. \<open>atob\<close> returns a binary string: one code unit per byte.
  Both are browser code, not code of the repository; they are modelled from those
  standards.
\<close>

section \<open>The alphabet\<close>

definition b64_char :: "nat \<Rightarrow> code_unit" where
  "b64_char n =
     (if n < 26 then of_nat (65 + n)
      else if n < 52 then of_nat (97 + (n - 26))
      else if n < 62 then of_nat (48 + (n - 52))
      else if n = 62 then 43 else 47)"

definition b64_val :: "code_unit \<Rightarrow> nat option" where
  "b64_val c =
     (let u = unat c in
      if 65 \<le> u \<and> u \<le> 90 then Some (u - 65)
      else if 97 \<le> u \<and> u \<le> 122 then Some (u - 71)
      else if 48 \<le> u \<and> u \<le> 57 then Some (u + 4)
      else if u = 43 then Some 62
      else if u = 47 then Some 63
      else None)"

section \<open>Encoding (RFC 4648)\<close>

text \<open>Each group of three bytes gives four sextets; a final group of one or two bytes
  gives two or three sextets, the missing bits being zero.\<close>

fun b64_sextets :: "byte list \<Rightarrow> nat list" where
  "b64_sextets (a # b # c # rest) =
     [unat a div 4, (unat a mod 4) * 16 + unat b div 16,
      (unat b mod 16) * 4 + unat c div 64, unat c mod 64] @ b64_sextets rest"
| "b64_sextets [a, b] =
     [unat a div 4, (unat a mod 4) * 16 + unat b div 16, (unat b mod 16) * 4]"
| "b64_sextets [a] = [unat a div 4, (unat a mod 4) * 16]"
| "b64_sextets [] = []"

definition b64_padding :: "nat \<Rightarrow> jstr" where
  "b64_padding n = replicate ((3 - n mod 3) mod 3) 61"

definition b64_encode :: "byte list \<Rightarrow> jstr" where
  "b64_encode bs = map b64_char (b64_sextets bs) @ b64_padding (length bs)"

section \<open>Decoding (forgiving-base64, atob)\<close>

definition is_ascii_ws :: "code_unit \<Rightarrow> bool" where
  "is_ascii_ws c \<longleftrightarrow> c = 0x09 \<or> c = 0x0A \<or> c = 0x0C \<or> c = 0x0D \<or> c = 0x20"

definition strip_padding :: "jstr \<Rightarrow> jstr" where
  "strip_padding d =
     (if length d mod 4 = 0 then
        (if ends_with d (js ''=='') then take (length d - 2) d
         else if ends_with d (js ''='') then take (length d - 1) d
         else d)
      else d)"

fun decode_sextets :: "nat list \<Rightarrow> nat list" where
  "decode_sextets (a # b # c # d # rest) =
     [a * 4 + b div 16, (b mod 16) * 16 + c div 4, (c mod 4) * 64 + d] @ decode_sextets rest"
| "decode_sextets [a, b, c] = [a * 4 + b div 16, (b mod 16) * 16 + c div 4]"
| "decode_sextets [a, b] = [a * 4 + b div 16]"
| "decode_sextets _ = []"

definition atob :: "jstr \<Rightarrow> js_error + jstr" where
  "atob s =
     (let d = strip_padding (filter (\<lambda>c. \<not> is_ascii_ws c) s) in
      if length d mod 4 = 1 then Inl InvalidCharacterError
      else (case those (map b64_val d) of
              None \<Rightarrow> Inl InvalidCharacterError
            | Some vs \<Rightarrow> Inr (map of_nat (decode_sextets vs))))"

section \<open>Round trip\<close>

lemma mult_add_div: "(x::nat) < m \<Longrightarrow> (y * m + x) div m = y"
  by simp

lemma mult_add_mod: "(x::nat) < m \<Longrightarrow> (y * m + x) mod m = x"
  by simp

lemma b64_val_char: assumes "n < 64" shows "b64_val (b64_char n) = Some n"
proof -
  consider "n < 26" | "26 \<le> n" "n < 52" | "52 \<le> n" "n < 62" | "n = 62" | "n = 63"
    using assms by linarith
  then show ?thesis
  proof cases
    case 1
    then have "unat (of_nat (65 + n) :: code_unit) = 65 + n" by (simp only: unat_of_nat) simp
    with 1 show ?thesis by (simp add: b64_char_def b64_val_def del: of_nat_add)
  next
    case 2
    then have "unat (of_nat (97 + (n - 26)) :: code_unit) = 97 + (n - 26)" by (simp only: unat_of_nat) simp
    with 2 show ?thesis by (simp add: b64_char_def b64_val_def del: of_nat_add)
  next
    case 3
    then have "unat (of_nat (48 + (n - 52)) :: code_unit) = 48 + (n - 52)" by (simp only: unat_of_nat) simp
    with 3 show ?thesis by (auto simp: b64_char_def b64_val_def Let_def simp del: of_nat_add)
  qed (simp_all add: b64_char_def b64_val_def)
qed

lemma b64_char_not_pad: "n < 64 \<Longrightarrow> b64_char n \<noteq> 61"
  using b64_val_char [of n] by (auto simp: b64_val_def)

lemma b64_char_not_ws: "n < 64 \<Longrightarrow> \<not> is_ascii_ws (b64_char n)"
  using b64_val_char [of n] by (auto simp: b64_val_def is_ascii_ws_def)

lemma b64_sextets_lt: "s \<in> set (b64_sextets bs) \<Longrightarrow> s < 64"
proof (induction bs rule: b64_sextets.induct)
  case (1 a b c rest)
  have "unat a < 256" "unat b < 256" "unat c < 256" by (simp_all add: unat_byte_lt)
  with 1 show ?case by auto
next
  case (2 a b)
  have "unat a < 256" "unat b < 256" by (simp_all add: unat_byte_lt)
  with 2 show ?case by auto
next
  case (3 a)
  have "unat a < 256" by (simp add: unat_byte_lt)
  with 3 show ?case by auto
qed simp

lemma decode_group:
  fixes a b c :: nat
  assumes "a < 256" "b < 256" "c < 256"
  shows "(a div 4) * 4 + ((a mod 4) * 16 + b div 16) div 16 = a"
    and "(((a mod 4) * 16 + b div 16) mod 16) * 16 + ((b mod 16) * 4 + c div 64) div 4 = b"
    and "(((b mod 16) * 4 + c div 64) mod 4) * 64 + c mod 64 = c"
proof -
  have "b div 16 < 16" "c div 64 < 4" using assms by simp_all
  then show "(a div 4) * 4 + ((a mod 4) * 16 + b div 16) div 16 = a"
    and "(((a mod 4) * 16 + b div 16) mod 16) * 16 + ((b mod 16) * 4 + c div 64) div 4 = b"
    and "(((b mod 16) * 4 + c div 64) mod 4) * 64 + c mod 64 = c"
    by (simp_all add: mult_add_div mult_add_mod)
qed

lemma decode_b64_sextets: "decode_sextets (b64_sextets bs) = map unat bs"
proof (induction bs rule: b64_sextets.induct)
  case (1 a b c rest)
  then show ?case
    using decode_group [of "unat a" "unat b" "unat c"] unat_byte_lt [of a] unat_byte_lt [of b]
      unat_byte_lt [of c] by simp
next
  case (2 a b)
  then show ?case
    using decode_group [of "unat a" "unat b" 0] unat_byte_lt [of a] unat_byte_lt [of b] by simp
next
  case (3 a)
  then show ?case using decode_group [of "unat a" 0 0] unat_byte_lt [of a] by simp
qed simp

lemma those_b64_val: "(\<And>s. s \<in> set sx \<Longrightarrow> s < 64) \<Longrightarrow> those (map b64_val (map b64_char sx)) = Some sx"
  by (induction sx) (auto simp: b64_val_char)

lemma length_b64_sextets_mod:
  "length (b64_sextets bs) mod 4 = (if length bs mod 3 = 0 then 0 else length bs mod 3 + 1)"
  by (induction bs rule: b64_sextets.induct) auto

lemma b64_sextet_chars_no_pad: "61 \<notin> set (map b64_char (b64_sextets bs))"
  using b64_char_not_pad b64_sextets_lt by auto

lemma strip_padding_encode: "strip_padding (b64_encode bs) = map b64_char (b64_sextets bs)"
proof -
  let ?cs = "map b64_char (b64_sextets bs)"
  have np: "61 \<notin> set ?cs" by (rule b64_sextet_chars_no_pad)
  then have n1: "\<not> suffix [61] ?cs" and n2: "\<not> suffix [61, 61] ?cs"
    by (auto dest: set_mono_suffix)
  have len: "length ?cs mod 4 = (if length bs mod 3 = 0 then 0 else length bs mod 3 + 1)"
    by (simp add: length_b64_sextets_mod)
  consider "length bs mod 3 = 0" | "length bs mod 3 = 1" | "length bs mod 3 = 2" by arith
  then show ?thesis
  proof cases
    case 1
    with len n1 n2 show ?thesis
      by (simp add: strip_padding_def b64_encode_def b64_padding_def ends_with_suffix js_lit)
  next
    case 2
    with len have "Suc (Suc (length (b64_sextets bs))) mod 4 = 0" by simp presburger
    with 2 len show ?thesis
      by (simp add: strip_padding_def b64_encode_def b64_padding_def ends_with_suffix js_lit
          numeral_2_eq_2 suffix_append)
  next
    case 3
    with len have "Suc (length (b64_sextets bs)) mod 4 = 0" by simp presburger
    with 3 len n1 show ?thesis
      by (simp add: strip_padding_def b64_encode_def b64_padding_def ends_with_suffix js_lit
          suffix_snoc)
  qed
qed

lemma b64_encode_no_ws: "filter (\<lambda>c. \<not> is_ascii_ws c) (b64_encode bs) = b64_encode bs"
  using b64_char_not_ws b64_sextets_lt
  by (auto simp: b64_encode_def b64_padding_def is_ascii_ws_def)

theorem atob_b64_encode: "atob (b64_encode bs) = Inr (map ucast bs)"
proof -
  have "those (map b64_val (map b64_char (b64_sextets bs))) = Some (b64_sextets bs)"
    using b64_sextets_lt by (rule those_b64_val)
  moreover have "length (b64_sextets bs) mod 4 \<noteq> 1"
    by (simp add: length_b64_sextets_mod)
  ultimately show ?thesis
    by (simp add: atob_def b64_encode_no_ws strip_padding_encode decode_b64_sextets)
qed
end
