(* ===== verification/DataUrl.thy ===== *)
theory DataUrl
  imports Base64
begin

text \<open>
  Image payloads are stored as data URLs. \<open>FileReader.readAsDataURL\<close> (File API)
  writes a file as \<open>data:<type>;base64,<payload>\<close>; the repository's
  \<open>dataURLtoFile\<close> (\<open>src/src/components/home/TimeTable.tsx\<close>, lines 7--15) turns such
  a string back into a \<open>File\<close>: it splits at \<open>,\<close>, takes the media type with the
  regular expression \<open>/:(.*?);/\<close>, decodes the payload with \<open>atob\<close> and copies the
  code units into a \<open>Uint8Array\<close> with a \<open>while (n--)\<close> loop. The \<open>File\<close>
  constructor normalises the type it is given (File API, \<open>new File\<close>): a type with a
  character outside U+0020--U+007E becomes empty, any other is lower-cased.
\<close>

record js_file =
  name :: jstr
  type :: jstr
  bytes :: "byte list"

section \<open>Browser side: the File constructor and readAsDataURL\<close>

definition ascii_lower :: "code_unit \<Rightarrow> code_unit" where
  "ascii_lower c = (if 0x41 \<le> c \<and> c \<le> 0x5A then c + 0x20 else c)"

definition blob_type :: "jstr \<Rightarrow> jstr" where
  "blob_type t = (if list_all (\<lambda>c. 0x20 \<le> c \<and> c \<le> 0x7E) t then map ascii_lower t else [])"

definition new_File :: "byte list \<Rightarrow> jstr \<Rightarrow> jstr \<Rightarrow> js_file" where
  "new_File bs nm t = \<lparr>name = nm, type = blob_type t, bytes = bs\<rparr>"

definition readAsDataURL :: "js_file \<Rightarrow> jstr" where
  "readAsDataURL f = js ''data:'' @ type f @ js '';base64,'' @ b64_encode (bytes f)"

section \<open>The regular expression /:(.*?);/\<close>

text \<open>
  \<open>lazy_to_semi\<close> is the lazy group \<open>(.*?)\<close> followed by \<open>;\<close>: it stops at the first
  \<open>;\<close>, and \<open>.\<close> does not cross a line terminator. \<open>match_colon_semi\<close> tries every
  start position from the left, as \<open>String.prototype.match\<close> does, and returns the
  captured group of the first match.
\<close>

fun lazy_to_semi :: "jstr \<Rightarrow> jstr option" where
  "lazy_to_semi [] = None"
| "lazy_to_semi (c # cs) =
     (if c = 0x3B then Some []
      else if is_line_terminator c then None
      else map_option (Cons c) (lazy_to_semi cs))"

fun match_colon_semi :: "jstr \<Rightarrow> jstr option" where
  "match_colon_semi [] = None"
| "match_colon_semi (c # cs) =
     (if c = 0x3A then (case lazy_to_semi cs of Some m \<Rightarrow> Some m | None \<Rightarrow> match_colon_semi cs)
      else match_colon_semi cs)"

section \<open>dataURLtoFile\<close>

text \<open>
  \<open>while (n--) u8arr[n] = bstr.charCodeAt(n);\<close>: the test reads \<open>n\<close> before the
  decrement, the body uses the decremented value, and a \<open>Uint8Array\<close> store keeps the
  low eight bits of the code unit.
\<close>

fun fill_loop :: "nat \<Rightarrow> jstr \<Rightarrow> byte list \<Rightarrow> byte list" where
  "fill_loop 0 bstr u8arr = u8arr"
| "fill_loop (Suc n) bstr u8arr = fill_loop n bstr (u8arr[n := ucast (bstr ! n)])"

text \<open>
  \<open>arr[1]!\<close> is a TypeScript assertion with no run-time effect: when the string has no
  comma, \<open>atob\<close> receives \<open>undefined\<close>, converts it to the string
  \<open>"undefined"\<close>, and throws. \<open>?.[1] || ""\<close> makes a missing match the empty type.
\<close>

definition dataURLtoFile :: "jstr \<Rightarrow> jstr \<Rightarrow> js_error + js_file" where
  "dataURLtoFile dataurl filename =
     (let arr = js_split 0x2C dataurl;
          mime = (case match_colon_semi (arr ! 0) of Some m \<Rightarrow> m | None \<Rightarrow> []);
          arg = (if 1 < length arr then arr ! 1 else js ''undefined'')
      in case atob arg of
           Inl e \<Rightarrow> Inl e
         | Inr bstr \<Rightarrow>
             (let n = length bstr;
                  u8arr = fill_loop n bstr (replicate n 0)
              in Inr (new_File u8arr filename mime)))"

section \<open>Media types that survive the round trip\<close>

text \<open>
  A type goes through \<open>readAsDataURL\<close> and \<open>dataURLtoFile\<close> unchanged when it is
  printable ASCII without upper-case letters (so \<open>new File\<close> keeps it), and holds no
  \<open>,\<close> (which \<open>split\<close> would cut at) and no \<open>;\<close> (where the regular expression
  would stop). Browsers report image types such as \<open>image/png\<close> in this form.
\<close>

definition plain_char :: "code_unit \<Rightarrow> bool" where
  "plain_char c \<longleftrightarrow> 0x20 \<le> c \<and> c \<le> 0x7E \<and> \<not> (0x41 \<le> c \<and> c \<le> 0x5A) \<and> c \<noteq> 0x2C \<and> c \<noteq> 0x3B"

definition plain_type :: "jstr \<Rightarrow> bool" where
  "plain_type t \<longleftrightarrow> list_all plain_char t"

section \<open>Properties\<close>

lemma fill_loop_take:
  "n \<le> length bstr \<Longrightarrow> length u8arr = length bstr \<Longrightarrow>
     fill_loop n bstr u8arr = map ucast (take n bstr) @ drop n u8arr"
proof (induction n arbitrary: u8arr)
  case 0
  then show ?case by simp
next
  case (Suc n)
  then have n: "n < length u8arr" "n < length bstr" by simp_all
  have "fill_loop (Suc n) bstr u8arr = fill_loop n bstr (u8arr[n := ucast (bstr ! n)])"
    by simp
  also have "\<dots> = map ucast (take n bstr) @ drop n (u8arr[n := ucast (bstr ! n)])"
    using Suc by simp
  also have "\<dots> = map ucast (take (Suc n) bstr) @ drop (Suc n) u8arr"
    using n by (simp add: take_Suc_conv_app_nth upd_conv_take_nth_drop)
  finally show ?case .
qed

text \<open>
  (C11) The while (n--) loop of dataURLtoFile, run from the string's length over a
  zero-filled array, yields the low bytes of the string's code units in order.
\<close>

lemma fill_loop_copies: "fill_loop (length bstr) bstr (replicate (length bstr) 0) = map ucast bstr"
  by (simp add: fill_loop_take)

lemma fill_loop_bytes:
  "fill_loop (length bs) (map ucast bs) (replicate (length bs) 0) = (bs :: byte list)"
  using fill_loop_take [of "length bs" "map ucast bs" "replicate (length bs) 0"]
  by (simp add: comp_def)

lemma lazy_to_semi_append:
  "0x3B \<notin> set t \<Longrightarrow> \<not> list_ex is_line_terminator t \<Longrightarrow> lazy_to_semi (t @ 0x3B # r) = Some t"
  by (induction t) auto

lemma b64_encode_no_comma: "0x2C \<notin> set (b64_encode bs)"
proof -
  have "b64_char n \<noteq> 0x2C" if "n < 64" for n
    using b64_val_char [OF that] by (auto simp: b64_val_def)
  then show ?thesis
    using b64_sextets_lt by (auto simp: b64_encode_def b64_padding_def)
qed

lemma plain_char_facts:
  "plain_char c \<Longrightarrow> ascii_lower c = c \<and> \<not> is_line_terminator c \<and> 0x20 \<le> c \<and> c \<le> 0x7E"
  by (auto simp: plain_char_def ascii_lower_def is_line_terminator_def)

lemma plain_type_facts:
  assumes "plain_type t"
  shows "blob_type t = t" and "0x2C \<notin> set t" and "0x3B \<notin> set t"
    and "\<not> list_ex is_line_terminator t"
proof -
  have pc: "\<And>c. c \<in> set t \<Longrightarrow> plain_char c"
    using assms by (simp add: plain_type_def plain_char_def list_all_iff)
  then have "map ascii_lower t = t" and "list_all (\<lambda>c. 0x20 \<le> c \<and> c \<le> 0x7E) t"
    by (auto simp: list_all_iff plain_char_facts intro!: map_idI)
  then show "blob_type t = t" by (simp add: blob_type_def)
  from pc show "0x2C \<notin> set t" and "0x3B \<notin> set t" by (auto simp: plain_char_def)
  from pc show "\<not> list_ex is_line_terminator t" by (auto simp: list_ex_iff plain_char_facts)
qed

theorem dataURLtoFile_readAsDataURL:
  assumes "plain_type (type f)"
  shows "dataURLtoFile (readAsDataURL f) nm = Inr (f\<lparr>name := nm\<rparr>)"
proof -
  note tf = plain_type_facts [OF assms]
  let ?head = "js ''data:'' @ type f @ js '';base64''"
  have split: "js_split 0x2C (readAsDataURL f) = [?head, b64_encode (bytes f)]"
  proof -
    have "0x2C \<notin> set ?head" using tf(2) by (simp add: js_lit)
    then have "js_split 0x2C (readAsDataURL f) = ?head # js_split 0x2C (b64_encode (bytes f))"
      using js_split_append_sep [of "0x2C" ?head] by (simp add: readAsDataURL_def js_lit)
    then show ?thesis using b64_encode_no_comma js_split_no_sep by metis
  qed
  have mime: "match_colon_semi ?head = Some (type f)"
    using lazy_to_semi_append [OF tf(3) tf(4)] by (simp add: js_lit)
  show ?thesis
    using split mime tf(1)
    by (simp add: dataURLtoFile_def atob_b64_encode fill_loop_bytes new_File_def)
qed
end
