(* ===== verification/Json.thy ===== *)
theory Json
  imports Prelude
begin

text \<open>
  \<open>JSON.stringify\<close> and \<open>JSON.parse\<close> (ECMA-262, section 25.5, over the grammar of
  ECMA-404), which the widget uses to store the parsed CSV rows under
  \<open>timetableCSV\<close> and to read them back. These are browser built-ins, modelled from the
  standard. A JavaScript value that JSON can carry is a \<open>jsval\<close>; a number is kept as
  its lexeme (the widget never stores a number: its rows are arrays of strings), and an
  object is its list of members, a repeated key overwriting the earlier value in place as
  \<open>CreateDataProperty\<close> does. \<open>JSON.parse\<close> is a recursive-descent parser whose
  recursion is bounded by fuel; \<open>JSON_parse\<close> gives it one unit more than the length
  of its input, and every unit the parser spends consumes at least one code unit.
\<close>

datatype jsval =
    JNull
  | JBool bool
  | JNum jstr
  | JStr jstr
  | JArr "jsval list"
  | JObj "(jstr \<times> jsval) list"

section \<open>JSON.stringify\<close>

definition hex_digit :: "nat \<Rightarrow> code_unit" where
  "hex_digit n = (if n < 10 then of_nat (48 + n) else of_nat (87 + n))"

text \<open>\<open>UnicodeEscape(C)\<close>: a backslash, \<open>u\<close>, and four lower-case hex digits.\<close>

definition unicode_escape :: "code_unit \<Rightarrow> jstr" where
  "unicode_escape c =
     (let u = unat c in
      [0x5C, 0x75, hex_digit (u div 4096), hex_digit (u div 256 mod 16),
       hex_digit (u div 16 mod 16), hex_digit (u mod 16)])"

definition is_high_surrogate :: "code_unit \<Rightarrow> bool" where
  "is_high_surrogate c \<longleftrightarrow> 0xD800 \<le> c \<and> c \<le> 0xDBFF"

definition is_low_surrogate :: "code_unit \<Rightarrow> bool" where
  "is_low_surrogate c \<longleftrightarrow> 0xDC00 \<le> c \<and> c \<le> 0xDFFF"

text \<open>The escapes of \<open>QuoteJSONString\<close> for a code unit that is not a surrogate.\<close>

definition json_escape_char :: "code_unit \<Rightarrow> jstr" where
  "json_escape_char c =
     (if c = 0x08 then [0x5C, 0x62]
      else if c = 0x09 then [0x5C, 0x74]
      else if c = 0x0A then [0x5C, 0x6E]
      else if c = 0x0C then [0x5C, 0x66]
      else if c = 0x0D then [0x5C, 0x72]
      else if c = 0x22 then [0x5C, 0x22]
      else if c = 0x5C then [0x5C, 0x5C]
      else if c < 0x20 then unicode_escape c
      else [c])"

text \<open>\<open>QuoteJSONString\<close> without its quotes: a surrogate pair is copied, a lone
  surrogate is escaped.\<close>

fun quote_units :: "jstr \<Rightarrow> jstr" where
  "quote_units [] = []"
| "quote_units (c # cs) =
     (if is_high_surrogate c then
        (case cs of
           [] \<Rightarrow> unicode_escape c
         | d # ds \<Rightarrow>
             if is_low_surrogate d then c # d # quote_units ds
             else unicode_escape c @ quote_units cs)
      else if is_low_surrogate c then unicode_escape c @ quote_units cs
      else json_escape_char c @ quote_units cs)"

definition quote_json :: "jstr \<Rightarrow> jstr" where
  "quote_json s = 0x22 # quote_units s @ [0x22]"

fun join_commas :: "jstr list \<Rightarrow> jstr" where
  "join_commas [] = []"
| "join_commas [x] = x"
| "join_commas (x # xs) = x @ 0x2C # join_commas xs"

fun stringify :: "jsval \<Rightarrow> jstr" where
  "stringify JNull = js ''null''"
| "stringify (JBool b) = (if b then js ''true'' else js ''false'')"
| "stringify (JNum n) = n"
| "stringify (JStr s) = quote_json s"
| "stringify (JArr vs) = 0x5B # join_commas (map stringify vs) @ [0x5D]"
| "stringify (JObj ms) =
     0x7B # join_commas (map (\<lambda>(k, v). quote_json k @ 0x3A # stringify v) ms) @ [0x7D]"

section \<open>JSON.parse\<close>

definition is_json_ws :: "code_unit \<Rightarrow> bool" where
  "is_json_ws c \<longleftrightarrow> c = 0x09 \<or> c = 0x0A \<or> c = 0x0D \<or> c = 0x20"

fun skip_ws :: "jstr \<Rightarrow> jstr" where
  "skip_ws [] = []"
| "skip_ws (c # cs) = (if is_json_ws c then skip_ws cs else c # cs)"

definition hex_val :: "code_unit \<Rightarrow> nat option" where
  "hex_val c =
     (let u = unat c in
      if 48 \<le> u \<and> u \<le> 57 then Some (u - 48)
      else if 97 \<le> u \<and> u \<le> 102 then Some (u - 87)
      else if 65 \<le> u \<and> u \<le> 70 then Some (u - 55)
      else None)"

definition hex4 :: "code_unit \<Rightarrow> code_unit \<Rightarrow> code_unit \<Rightarrow> code_unit \<Rightarrow> code_unit option" where
  "hex4 a b c d =
     (case (hex_val a, hex_val b, hex_val c, hex_val d) of
        (Some w, Some x, Some y, Some z) \<Rightarrow> Some (of_nat (w * 4096 + x * 256 + y * 16 + z))
      | _ \<Rightarrow> None)"

definition simple_escape :: "code_unit \<Rightarrow> code_unit option" where
  "simple_escape e =
     (if e = 0x22 then Some 0x22 else if e = 0x5C then Some 0x5C
      else if e = 0x2F then Some 0x2F else if e = 0x62 then Some 0x08
      else if e = 0x66 then Some 0x0C else if e = 0x6E then Some 0x0A
      else if e = 0x72 then Some 0x0D else if e = 0x74 then Some 0x09
      else None)"

text \<open>The body of a string literal, after its opening quote: the string and what follows
  the closing quote. An unescaped control character is a syntax error.\<close>

fun parse_str :: "jstr \<Rightarrow> (jstr \<times> jstr) option" where
  "parse_str [] = None"
| "parse_str (c # cs) =
     (if c = 0x22 then Some ([], cs)
      else if c = 0x5C then
        (case cs of
           [] \<Rightarrow> None
         | e # r \<Rightarrow>
             if e = 0x75 then
               (case r of
                  h1 # h2 # h3 # h4 # r' \<Rightarrow>
                    (case hex4 h1 h2 h3 h4 of
                       None \<Rightarrow> None
                     | Some u \<Rightarrow> map_option (\<lambda>(s, rest). (u # s, rest)) (parse_str r'))
                | _ \<Rightarrow> None)
             else
               (case simple_escape e of
                  None \<Rightarrow> None
                | Some u \<Rightarrow> map_option (\<lambda>(s, rest). (u # s, rest)) (parse_str r)))
      else if c < 0x20 then None
      else map_option (\<lambda>(s, rest). (c # s, rest)) (parse_str cs))"

definition is_digit :: "code_unit \<Rightarrow> bool" where
  "is_digit c \<longleftrightarrow> 0x30 \<le> c \<and> c \<le> 0x39"

definition scan_digits1 :: "jstr \<Rightarrow> (jstr \<times> jstr) option" where
  "scan_digits1 s =
     (let ds = takeWhile is_digit s in if ds = [] then None else Some (ds, dropWhile is_digit s))"

definition scan_int :: "jstr \<Rightarrow> (jstr \<times> jstr) option" where
  "scan_int s =
     (case s of
        [] \<Rightarrow> None
      | c # r \<Rightarrow> if c = 0x30 then Some ([c], r) else if is_digit c then scan_digits1 s else None)"

definition scan_frac :: "jstr \<Rightarrow> (jstr \<times> jstr) option" where
  "scan_frac s =
     (case s of
        c # r \<Rightarrow>
          if c = 0x2E then map_option (\<lambda>(ds, r'). (c # ds, r')) (scan_digits1 r)
          else Some ([], s)
      | [] \<Rightarrow> Some ([], []))"

definition scan_exp :: "jstr \<Rightarrow> (jstr \<times> jstr) option" where
  "scan_exp s =
     (case s of
        c # r \<Rightarrow>
          if c = 0x65 \<or> c = 0x45 then
            (let (sg, r1) = (case r of
                               d # r' \<Rightarrow> if d = 0x2B \<or> d = 0x2D then ([d], r') else ([], r)
                             | [] \<Rightarrow> ([], r))
             in map_option (\<lambda>(ds, r2). (c # sg @ ds, r2)) (scan_digits1 r1))
          else Some ([], s)
      | [] \<Rightarrow> Some ([], []))"

text \<open>A number: an optional minus, an integer part without leading zeros, an optional
  fraction and an optional exponent; the lexeme is returned.\<close>

definition parse_number :: "jstr \<Rightarrow> (jstr \<times> jstr) option" where
  "parse_number s =
     (let (sg, r0) = (case s of c # r \<Rightarrow> if c = 0x2D then ([c], r) else ([], s) | [] \<Rightarrow> ([], []))
      in case scan_int r0 of
           None \<Rightarrow> None
         | Some (i, r1) \<Rightarrow>
             (case scan_frac r1 of
                None \<Rightarrow> None
              | Some (fr, r2) \<Rightarrow>
                  (case scan_exp r2 of
                     None \<Rightarrow> None
                   | Some (ex, r3) \<Rightarrow> Some (sg @ i @ fr @ ex, r3))))"

text \<open>
  \<open>parse_value\<close> reads one value after optional white space; \<open>parse_elems\<close> and
  \<open>parse_members\<close> read the rest of an array or object after its first element, up
  to and including the closing bracket; \<open>parse_member\<close> reads \<open>"key" : value\<close>.
\<close>

fun parse_value :: "nat \<Rightarrow> jstr \<Rightarrow> (jsval \<times> jstr) option"
and parse_elems :: "nat \<Rightarrow> jsval list \<Rightarrow> jstr \<Rightarrow> (jsval list \<times> jstr) option"
and parse_member :: "nat \<Rightarrow> jstr \<Rightarrow> ((jstr \<times> jsval) \<times> jstr) option"
and parse_members ::
  "nat \<Rightarrow> (jstr \<times> jsval) list \<Rightarrow> jstr \<Rightarrow> ((jstr \<times> jsval) list \<times> jstr) option"
where
  "parse_value 0 s = None"
| "parse_value (Suc f) s =
     (case skip_ws s of
        [] \<Rightarrow> None
      | c # r \<Rightarrow>
          if c = 0x22 then map_option (\<lambda>(str, r'). (JStr str, r')) (parse_str r)
          else if c = 0x5B then
            (case skip_ws r of
               [] \<Rightarrow> None
             | d # r' \<Rightarrow>
                 if d = 0x5D then Some (JArr [], r')
                 else (case parse_value f r of
                         None \<Rightarrow> None
                       | Some (v, r1) \<Rightarrow> map_option (\<lambda>(vs, r2). (JArr vs, r2)) (parse_elems f [v] r1)))
          else if c = 0x7B then
            (case skip_ws r of
               [] \<Rightarrow> None
             | d # r' \<Rightarrow>
                 if d = 0x7D then Some (JObj [], r')
                 else (case parse_member f r of
                         None \<Rightarrow> None
                       | Some ((k, v), r1) \<Rightarrow>
                           map_option (\<lambda>(ms, r2). (JObj ms, r2)) (parse_members f [(k, v)] r1)))
          else if c = 0x74 then (if take 3 r = js ''rue'' then Some (JBool True, drop 3 r) else None)
          else if c = 0x66 then (if take 4 r = js ''alse'' then Some (JBool False, drop 4 r) else None)
          else if c = 0x6E then (if take 3 r = js ''ull'' then Some (JNull, drop 3 r) else None)
          else if c = 0x2D \<or> is_digit c then
            map_option (\<lambda>(n, r'). (JNum n, r')) (parse_number (c # r))
          else None)"
| "parse_elems 0 acc s = None"
| "parse_elems (Suc f) acc s =
     (case skip_ws s of
        [] \<Rightarrow> None
      | c # r \<Rightarrow>
          if c = 0x5D then Some (rev acc, r)
          else if c = 0x2C then
            (case parse_value f r of
               None \<Rightarrow> None
             | Some (v, r1) \<Rightarrow> parse_elems f (v # acc) r1)
          else None)"
| "parse_member 0 s = None"
| "parse_member (Suc f) s =
     (case skip_ws s of
        [] \<Rightarrow> None
      | c # r \<Rightarrow>
          if c = 0x22 then
            (case parse_str r of
               None \<Rightarrow> None
             | Some (k, r1) \<Rightarrow>
                 (case skip_ws r1 of
                    [] \<Rightarrow> None
                  | d # r2 \<Rightarrow>
                      if d = 0x3A then
                        (case parse_value f r2 of
                           None \<Rightarrow> None
                         | Some (v, r3) \<Rightarrow> Some ((k, v), r3))
                      else None))
          else None)"
| "parse_members 0 acc s = None"
| "parse_members (Suc f) acc s =
     (case skip_ws s of
        [] \<Rightarrow> None
      | c # r \<Rightarrow>
          if c = 0x7D then Some (acc, r)
          else if c = 0x2C then
            (case parse_member f r of
               None \<Rightarrow> None
             | Some ((k, v), r1) \<Rightarrow> parse_members f (AList.update k v acc) r1)
          else None)"

definition JSON_parse :: "jstr \<Rightarrow> js_error + jsval" where
  "JSON_parse s =
     (case parse_value (Suc (length s)) s of
        None \<Rightarrow> Inl SyntaxError
      | Some (v, rest) \<Rightarrow> if skip_ws rest = [] then Inr v else Inl SyntaxError)"

section \<open>Values whose text round-trips\<close>

text \<open>The values built from strings by arrays: the rows the widget stores are such a
  value, an array of arrays of strings.\<close>

fun str_tree :: "jsval \<Rightarrow> bool" where
  "str_tree (JStr s) = True"
| "str_tree (JArr vs) = list_all str_tree vs"
| "str_tree _ = False"

definition rows_val :: "jstr list list \<Rightarrow> jsval" where
  "rows_val rows = JArr (map (\<lambda>row. JArr (map JStr row)) rows)"

section \<open>Properties\<close>

lemma hex_val_digit: "n < 16 \<Longrightarrow> hex_val (hex_digit n) = Some n"
proof -
  assume n: "n < 16"
  show ?thesis
  proof (cases "n < 10")
    case True
    then have "unat (of_nat (48 + n) :: code_unit) = 48 + n" by (simp only: unat_of_nat) simp
    with True show ?thesis by (simp add: hex_digit_def hex_val_def del: of_nat_add)
  next
    case False
    with n have "unat (of_nat (87 + n) :: code_unit) = 87 + n" by (simp only: unat_of_nat) simp
    with False n show ?thesis by (auto simp: hex_digit_def hex_val_def Let_def simp del: of_nat_add)
  qed
qed

lemma hex_digits_recombine:
  "(u::nat) < 65536 \<Longrightarrow>
     u div 4096 * 4096 + u div 256 mod 16 * 256 + u div 16 mod 16 * 16 + u mod 16 = u"
proof -
  assume "u < 65536"
  have a: "u = u div 16 * 16 + u mod 16" by simp
  have b: "u div 16 = u div 256 * 16 + u div 16 mod 16"
  proof -
    have "u div 16 div 16 = u div 256" by (simp add: div_div_eq_right)
    then show ?thesis by (metis div_mult_mod_eq)
  qed
  have c: "u div 256 = u div 4096 * 16 + u div 256 mod 16"
  proof -
    have "u div 256 div 16 = u div 4096" by (simp add: div_div_eq_right)
    then show ?thesis by (metis div_mult_mod_eq)
  qed
  from a b c show ?thesis by linarith
qed

lemma hex4_unicode_escape:
  "hex4 (hex_digit (unat c div 4096)) (hex_digit (unat c div 256 mod 16))
        (hex_digit (unat c div 16 mod 16)) (hex_digit (unat c mod 16)) = Some (c :: code_unit)"
proof -
  have lt: "unat c < 65536" using unsigned_less [of c] by simp
  then have "unat c div 4096 < 16" by simp
  with lt show ?thesis
    by (simp add: hex4_def hex_val_digit hex_digits_recombine)
qed

lemma parse_str_unicode_escape:
  "parse_str (unicode_escape c @ r) = map_option (\<lambda>(s, rest). (c # s, rest)) (parse_str r)"
  by (simp add: unicode_escape_def Let_def hex4_unicode_escape)

lemma parse_str_plain:
  "0x20 \<le> c \<Longrightarrow> c \<noteq> 0x22 \<Longrightarrow> c \<noteq> 0x5C \<Longrightarrow>
     parse_str (c # r) = map_option (\<lambda>(s, rest). (c # s, rest)) (parse_str r)"
  by (simp add: leD)
lemma parse_str_named:
  "simple_escape e = Some u \<Longrightarrow> e \<noteq> 0x75 \<Longrightarrow>
     parse_str (0x5C # e # r) = map_option (\<lambda>(s, rest). (u # s, rest)) (parse_str r)"
  by simp
lemma parse_str_json_escape_char:
  "parse_str (json_escape_char c @ r) = map_option (\<lambda>(s, rest). (c # s, rest)) (parse_str r)"
proof -
  consider "c = 0x08" | "c = 0x09" | "c = 0x0A" | "c = 0x0C" | "c = 0x0D" | "c = 0x22" | "c = 0x5C"
    | "c \<notin> {0x08, 0x09, 0x0A, 0x0C, 0x0D, 0x22, 0x5C}" "c < 0x20"
    | "c \<notin> {0x08, 0x09, 0x0A, 0x0C, 0x0D, 0x22, 0x5C}" "\<not> c < 0x20"
    by blast
  then show ?thesis
  proof cases
    case 8
    then show ?thesis by (simp add: json_escape_char_def parse_str_unicode_escape)
  next
    case 9
    then show ?thesis by (simp add: json_escape_char_def)
  qed (simp_all add: json_escape_char_def simple_escape_def)
qed

lemma surrogate_plain:
  "is_high_surrogate c \<or> is_low_surrogate c \<Longrightarrow> \<not> c < 0x20 \<and> c \<noteq> 0x22 \<and> c \<noteq> 0x5C"
proof -
  assume a: "is_high_surrogate c \<or> is_low_surrogate c"
  have "0xD800 \<le> c"
  proof (cases "is_high_surrogate c")
    case True
    then show ?thesis by (simp add: is_high_surrogate_def)
  next
    case False
    with a have "0xDC00 \<le> c" by (simp add: is_low_surrogate_def)
    then show ?thesis using order_trans [of "0xD800 :: code_unit" "0xDC00" c] by simp
  qed
  then have "0x20 \<le> c" using order_trans [of "0x20 :: code_unit" "0xD800" c] by simp
  with \<open>0xD800 \<le> c\<close> show ?thesis by (auto simp: leD)
qed

lemma parse_str_quote_units: "parse_str (quote_units s @ 0x22 # r) = Some (s, r)"
proof (induction s rule: quote_units.induct)
  case 1
  then show ?case by simp
next
  case (2 c cs)
  show ?case
  proof (cases "is_high_surrogate c")
    case high: True
    show ?thesis
    proof (cases cs)
      case Nil
      with high show ?thesis by (simp add: parse_str_unicode_escape)
    next
      case (Cons d ds)
      show ?thesis
      proof (cases "is_low_surrogate d")
        case True
        with high Cons "2.IH" surrogate_plain [of c] surrogate_plain [of d] show ?thesis
          by (simp add: parse_str_plain)
      next
        case False
        with high Cons "2.IH" show ?thesis by (simp add: parse_str_unicode_escape)
      qed
    qed
  next
    case notHigh: False
    show ?thesis
    proof (cases "is_low_surrogate c")
      case True
      with notHigh "2.IH" show ?thesis by (simp add: parse_str_unicode_escape)
    next
      case False
      with notHigh "2.IH" show ?thesis by (simp add: parse_str_json_escape_char)
    qed
  qed
qed

lemma str_tree_first:
  "str_tree v \<Longrightarrow> \<exists>c t. stringify v = c # t \<and> (c = 0x22 \<or> c = 0x5B)"
  by (cases v) (auto simp: quote_json_def)

lemma join_commas_Cons: "join_commas (x # xs) = x @ concat (map (\<lambda>y. 0x2C # y) xs)"
  by (induction xs arbitrary: x) auto

lemma skip_ws_open: "c = 0x22 \<or> c = 0x5B \<Longrightarrow> skip_ws (c # t) = c # t"
  by (auto simp: is_json_ws_def)

lemma parse_elems_stringify:
  assumes "\<And>v g r. v \<in> set vs \<Longrightarrow> length (stringify v) \<le> g \<Longrightarrow> parse_value g (stringify v @ r) = Some (v, r)"
    and "length (concat (map (\<lambda>v. 0x2C # stringify v) vs)) < g"
  shows "parse_elems g acc (concat (map (\<lambda>v. 0x2C # stringify v) vs) @ 0x5D # r) = Some (rev acc @ vs, r)"
  using assms
proof (induction vs arbitrary: g acc)
  case Nil
  then obtain g' where "g = Suc g'" by (cases g) auto
  then show ?case by (simp add: is_json_ws_def)
next
  case (Cons v vs)
  then obtain g' where g: "g = Suc g'" by (cases g) auto
  let ?rest = "concat (map (\<lambda>v. 0x2C # stringify v) vs) @ 0x5D # r"
  have v: "parse_value g' (stringify v @ ?rest) = Some (v, ?rest)"
    using Cons.prems g by simp
  have "parse_elems g' (v # acc) ?rest = Some (rev (v # acc) @ vs, r)"
    using Cons.prems g by (intro Cons.IH) auto
  with v g show ?case by (simp add: is_json_ws_def)
qed

lemma parse_value_stringify:
  "str_tree v \<Longrightarrow> length (stringify v) \<le> g \<Longrightarrow> parse_value g (stringify v @ r) = Some (v, r)"
proof (induction v arbitrary: g r)
  case (JStr s)
  then obtain g' where "g = Suc g'" by (cases g) (auto simp: quote_json_def)
  then show ?case by (simp add: quote_json_def is_json_ws_def parse_str_quote_units)
next
  case (JArr vs)
  then obtain g' where g: "g = Suc g'" by (cases g) auto
  show ?case
  proof (cases vs)
    case Nil
    with g show ?thesis by (simp add: is_json_ws_def)
  next
    case (Cons v1 vs')
    let ?rest = "concat (map (\<lambda>v. 0x2C # stringify v) vs') @ 0x5D # r"
    have all: "\<And>v g r. v \<in> set vs \<Longrightarrow> length (stringify v) \<le> g \<Longrightarrow> parse_value g (stringify v @ r) = Some (v, r)"
      using JArr by (simp add: list_all_iff)
    have unf: "stringify (JArr vs) @ r = 0x5B # stringify v1 @ ?rest"
      using Cons by (simp add: join_commas_Cons comp_def)
    obtain c t where ct: "stringify v1 = c # t" "c = 0x22 \<or> c = 0x5B"
      using str_tree_first [of v1] JArr.prems Cons by auto
    have len: "length (stringify v1) + length (concat (map (\<lambda>v. 0x2C # stringify v) vs')) < g'"
      using JArr.prems(2) g Cons by (simp add: join_commas_Cons comp_def)
    have first: "parse_value g' (stringify v1 @ ?rest) = Some (v1, ?rest)"
      using all [of v1 g' ?rest] Cons len by simp
    have elems: "parse_elems g' [v1] ?rest = Some (v1 # vs', r)"
      using parse_elems_stringify [of vs' g' "[v1]" r] all Cons len by simp
    have nb: "c \<noteq> 0x5D" and nws: "\<not> is_json_ws c"
      using ct(2) by (auto simp: is_json_ws_def)
    show ?thesis
      unfolding unf using g first elems ct(1) nb nws Cons by (simp add: is_json_ws_def)
  qed
qed simp_all

theorem JSON_parse_stringify: "str_tree v \<Longrightarrow> JSON_parse (stringify v) = Inr v"
  using parse_value_stringify [of v "Suc (length (stringify v))" "[]"]
  by (simp add: JSON_parse_def)

end
