(* ===== verification/Widget.thy ===== *)
theory Widget
  imports LocalStorage DataUrl Json
begin

text \<open>
  The \<open>TimeTableBlock\<close> component of \<open>src/src/components/home/TimeTable.tsx\<close>. Its four
  \<open>useState\<close> hooks are the fields of \<open>widget\<close>; \<open>csvData\<close> holds whatever
  JavaScript value was stored in it (\<open>JNull\<close> for \<open>null\<close>), since the restore path
  stores the result of \<open>JSON.parse\<close> without checking it. Each handler is a function of
  the state (and of \<open>localStorage\<close> where it touches it); one that can throw returns its
  exception as a value. The handlers read the state only through functional updates, so
  running them one after the other is how React applies them. \<open>render\<close> is the JSX
  returned by the component: which controls are shown, the image and table in the panel,
  the day slider and the full-screen modal; a table cell or row of the wrong kind makes
  it throw.
\<close>

record widget =
  uploadedFile :: "js_file option"
  csvData :: jsval
  currentDay :: int
  isExpanded :: bool

definition initial_widget :: widget where
  "initial_widget = \<lparr>uploadedFile = None, csvData = JNull, currentDay = 0, isExpanded = False\<rparr>"

section \<open>Storage keys and literals\<close>

definition key_type :: jstr where "key_type = js ''timetableType''"
definition key_csv :: jstr where "key_csv = js ''timetableCSV''"
definition key_image :: jstr where "key_image = js ''timetableImage''"
definition saved_image_name :: jstr where "saved_image_name = js ''saved-image.png''"

section \<open>JavaScript truthiness\<close>

text \<open>A number lexeme denotes zero when every digit of its mantissa is \<open>0\<close>.\<close>

definition num_zero :: "jstr \<Rightarrow> bool" where
  "num_zero n \<longleftrightarrow>
     list_all (\<lambda>c. c = 0x30 \<or> c = 0x2E \<or> c = 0x2D) (takeWhile (\<lambda>c. c \<noteq> 0x65 \<and> c \<noteq> 0x45) n)"

fun truthy :: "jsval \<Rightarrow> bool" where
  "truthy JNull = False"
| "truthy (JBool b) = b"
| "truthy (JNum n) = (\<not> num_zero n)"
| "truthy (JStr s) = (s \<noteq> [])"
| "truthy (JArr vs) = True"
| "truthy (JObj ms) = True"

text \<open>\<open>uploadedFile || csvData\<close>: the component shows an artifact.\<close>

definition has_artifact :: "widget \<Rightarrow> bool" where
  "has_artifact w \<longleftrightarrow> uploadedFile w \<noteq> None \<or> truthy (csvData w)"

section \<open>Handlers\<close>

definition toggleExpand :: "widget \<Rightarrow> widget" where
  "toggleExpand w = w\<lparr>isExpanded := \<not> isExpanded w\<rparr>"

definition nextDay :: "widget \<Rightarrow> widget" where
  "nextDay w = w\<lparr>currentDay := (if currentDay w = 4 then 0 else currentDay w + 1)\<rparr>"

definition prevDay :: "widget \<Rightarrow> widget" where
  "prevDay w = w\<lparr>currentDay := (if currentDay w = 0 then 4 else currentDay w - 1)\<rparr>"

text \<open>
  The mount effect (lines 28--45). The two \<open>if\<close>s are sequential, as in the source; an
  empty stored string is falsy and skipped; \<open>JSON.parse\<close> and \<open>dataURLtoFile\<close> are
  called without a \<open>try\<close>, so their exceptions leave the effect.
\<close>

definition restore :: "storage \<Rightarrow> widget \<Rightarrow> js_error + widget" where
  "restore st w =
     (let ty = getItem st key_type;
          r1 = (if ty = Some (js ''csv'') then
                  (case getItem st key_csv of
                     Some csv \<Rightarrow>
                       if csv \<noteq> [] then
                         (case JSON_parse csv of
                            Inl e \<Rightarrow> Inl e
                          | Inr v \<Rightarrow> Inr (w\<lparr>csvData := v\<rparr>))
                       else Inr w
                   | None \<Rightarrow> Inr w)
                else Inr w)
      in case r1 of
           Inl e \<Rightarrow> Inl e
         | Inr w1 \<Rightarrow>
             if ty = Some (js ''image'') then
               (case getItem st key_image of
                  Some img \<Rightarrow>
                    if img \<noteq> [] then
                      (case dataURLtoFile img saved_image_name of
                         Inl e \<Rightarrow> Inl e
                       | Inr f \<Rightarrow> Inr (w1\<lparr>uploadedFile := Some f\<rparr>))
                    else Inr w1
                | None \<Rightarrow> Inr w1)
             else Inr w1)"

text \<open>
  \<open>handleFileUpload\<close> (lines 47--81): with no file it returns; otherwise it starts a
  read only for an image type (as a data URL) or the type \<open>text/csv\<close> (as text). Any
  other file gets a reader whose \<open>onload\<close> never runs. The read is a pending task.
\<close>

datatype read_kind = ReadDataURL | ReadText

datatype task =
    ReaderTask js_file read_kind
  | PapaTask js_file

definition handleFileUpload :: "js_file option \<Rightarrow> task option" where
  "handleFileUpload sel =
     (case sel of
        None \<Rightarrow> None
      | Some f \<Rightarrow>
          if starts_with (type f) (js ''image/'') then Some (ReaderTask f ReadDataURL)
          else if type f = js ''text/csv'' then Some (ReaderTask f ReadText)
          else None)"

text \<open>
  \<open>reader.onload\<close> (lines 52--74), given the reader's result: a CSV file (by type or
  by name) is handed to \<open>Papa.parse\<close>, which runs as a further task; an image file
  becomes the artifact and is written to storage, the type key first. An exception of
  \<open>setItem\<close> ends the callback after the state updates it follows.
\<close>

definition reader_onload ::
  "js_file \<Rightarrow> jstr \<Rightarrow> storage \<Rightarrow> widget \<Rightarrow> widget \<times> storage \<times> task option \<times> js_error option" where
  "reader_onload f result st w =
     (if type f = js ''text/csv'' \<or> ends_with (name f) (js ''.csv'') then (w, st, Some (PapaTask f), None)
      else if starts_with (type f) (js ''image/'') then
        (let w' = w\<lparr>uploadedFile := Some f, csvData := JNull\<rparr>;
             (st', err) = set_items st [(key_type, js ''image''), (key_image, result)]
         in (w', st', None, err))
      else (w, st, None, None))"

text \<open>Papa's \<open>complete\<close> callback (lines 56--62) with \<open>result.data\<close>, and its
  \<open>error\<close> callback (lines 63--65), which only logs.\<close>

definition papa_complete ::
  "js_file \<Rightarrow> jstr list list \<Rightarrow> storage \<Rightarrow> widget \<Rightarrow> widget \<times> storage \<times> js_error option" where
  "papa_complete f rows st w =
     (let w' = w\<lparr>uploadedFile := Some f, csvData := rows_val rows\<rparr>;
          (st', err) = set_items st [(key_type, js ''csv''), (key_csv, stringify (rows_val rows))]
      in (w', st', err))"

definition papa_error :: "storage \<Rightarrow> widget \<Rightarrow> widget \<times> storage" where
  "papa_error st w = (w, st)"

text \<open>The Remove button's handler (lines 121--127).\<close>

definition remove :: "storage \<Rightarrow> widget \<Rightarrow> widget \<times> storage" where
  "remove st w =
     (w\<lparr>uploadedFile := None, csvData := JNull\<rparr>,
      removeItem (removeItem (removeItem st key_csv) key_image) key_type)"

section \<open>Render\<close>

text \<open>
  \<open>{cell}\<close> as React renders it: text for strings and numbers, nothing for
  \<open>null\<close> and booleans, the children in order for an array, and an exception for an
  object. \<open>csvData.map\<close> and \<open>row.map\<close> throw \<open>TypeError\<close> on a value that is not
  an array.
\<close>

fun render_node :: "jsval \<Rightarrow> js_error + jstr" where
  "render_node JNull = Inr []"
| "render_node (JBool b) = Inr []"
| "render_node (JNum n) = Inr n"
| "render_node (JStr s) = Inr s"
| "render_node (JArr vs) = map_sum id concat (seq_sum (map render_node vs))"
| "render_node (JObj ms) = Inl InvalidChildError"

definition render_row :: "jsval \<Rightarrow> js_error + jstr list" where
  "render_row row = (case row of JArr cells \<Rightarrow> seq_sum (map render_node cells) | _ \<Rightarrow> Inl TypeError)"

definition render_table :: "jsval \<Rightarrow> js_error + jstr list list" where
  "render_table v = (case v of JArr rows \<Rightarrow> seq_sum (map render_row rows) | _ \<Rightarrow> Inl TypeError)"

text \<open>
  What the component shows (lines 83--214): the Upload control when there is no artifact,
  the Remove button and a clickable panel when there is one, the image (its type and
  bytes, as \<open>URL.createObjectURL\<close> serves them) when the file has an image type, the
  table when \<open>csvData\<close> is truthy, the day slider when there is no artifact, and the
  modal with the same image and table when expanded with an artifact.
\<close>

record view =
  upload_button :: bool
  remove_button :: bool
  panel_clickable :: bool
  panel_image :: "(jstr \<times> byte list) option"
  panel_table :: "jstr list list option"
  slider_day :: "int option"
  modal :: "((jstr \<times> byte list) option \<times> jstr list list option) option"

definition shown_image :: "widget \<Rightarrow> (jstr \<times> byte list) option" where
  "shown_image w =
     (case uploadedFile w of
        Some f \<Rightarrow> if starts_with (type f) (js ''image/'') then Some (type f, bytes f) else None
      | None \<Rightarrow> None)"

definition render :: "widget \<Rightarrow> js_error + view" where
  "render w =
     (let art = has_artifact w;
          img = shown_image w
      in case (if truthy (csvData w) then map_sum id Some (render_table (csvData w)) else Inr None) of
           Inl e \<Rightarrow> Inl e
         | Inr tbl \<Rightarrow>
             Inr \<lparr>upload_button = \<not> art, remove_button = art, panel_clickable = art,
                  panel_image = img, panel_table = tbl,
                  slider_day = (if art then None else Some (currentDay w)),
                  modal = (if isExpanded w \<and> art then Some (img, tbl) else None)\<rparr>)"

section \<open>Predicates of the properties\<close>

text \<open>The day index stays in the slider's range; an image file is one the upload path
  treats as an image (an image type, and neither the CSV type nor a \<open>.csv\<close> name).\<close>

definition day_ok :: "widget \<Rightarrow> bool" where
  "day_ok w \<longleftrightarrow> 0 \<le> currentDay w \<and> currentDay w \<le> 4"

definition is_image_file :: "js_file \<Rightarrow> bool" where
  "is_image_file f \<longleftrightarrow>
     starts_with (type f) (js ''image/'') \<and> type f \<noteq> js ''text/csv'' \<and> \<not> ends_with (name f) (js ''.csv'')"

section \<open>Properties\<close>

lemma nextDay_ok: "day_ok w \<Longrightarrow> day_ok (nextDay w)"
  by (simp add: day_ok_def nextDay_def)

lemma prevDay_ok: "day_ok w \<Longrightarrow> day_ok (prevDay w)"
  by (simp add: day_ok_def prevDay_def)

lemma prevDay_nextDay: "day_ok w \<Longrightarrow> prevDay (nextDay w) = w"
  by (auto simp: day_ok_def nextDay_def prevDay_def)

lemma nextDay_prevDay: "day_ok w \<Longrightarrow> nextDay (prevDay w) = w"
  by (auto simp: day_ok_def nextDay_def prevDay_def)

lemma nextDay_mod: "day_ok w \<Longrightarrow> nextDay w = w\<lparr>currentDay := (currentDay w + 1) mod 5\<rparr>"
  by (auto simp: day_ok_def nextDay_def)

lemma prevDay_mod: "day_ok w \<Longrightarrow> prevDay w = w\<lparr>currentDay := (currentDay w - 1) mod 5\<rparr>"
  by (auto simp: day_ok_def prevDay_def)

lemma day_ok_mod [simp]: "day_ok (w\<lparr>currentDay := x mod 5\<rparr>)"
  by (simp add: day_ok_def)

text \<open>
  (C9) The slider arrows rotate the day through 0..4: from a day in range, n clicks of
  Next advance it by n modulo 5 and n clicks of Prev move it back by n modulo 5,
  leaving the rest of the state unchanged.
\<close>

theorem slider_rotation:
  assumes "day_ok w"
  shows "(nextDay ^^ n) w = w\<lparr>currentDay := (currentDay w + int n) mod 5\<rparr> \<and>
         (prevDay ^^ n) w = w\<lparr>currentDay := (currentDay w - int n) mod 5\<rparr>"
proof (induction n)
  case 0
  from assms show ?case by (simp add: day_ok_def)
next
  case (Suc n)
  have "(nextDay ^^ Suc n) w = w\<lparr>currentDay := ((currentDay w + int n) mod 5 + 1) mod 5\<rparr>"
    using Suc by (simp add: nextDay_mod)
  also have "\<dots> = w\<lparr>currentDay := (currentDay w + int (Suc n)) mod 5\<rparr>"
    by (simp only: mod_add_left_eq) (simp add: ac_simps)
  finally have n: "(nextDay ^^ Suc n) w = w\<lparr>currentDay := (currentDay w + int (Suc n)) mod 5\<rparr>" .
  have "(prevDay ^^ Suc n) w = w\<lparr>currentDay := ((currentDay w - int n) mod 5 - 1) mod 5\<rparr>"
    using Suc by (simp add: prevDay_mod)
  also have "\<dots> = w\<lparr>currentDay := (currentDay w - int (Suc n)) mod 5\<rparr>"
    by (simp add: mod_diff_left_eq algebra_simps)
  finally show ?case using n by simp
qed

lemma slider_rotation_witness:
  "day_ok initial_widget \<and>
   (nextDay ^^ 7) initial_widget = initial_widget\<lparr>currentDay := 2\<rparr> \<and>
   (prevDay ^^ 7) initial_widget = initial_widget\<lparr>currentDay := 3\<rparr>"
proof -
  have d: "day_ok initial_widget" by (simp add: day_ok_def initial_widget_def)
  then show ?thesis using slider_rotation [OF d, of 7] by (simp add: initial_widget_def)
qed

lemma prevDay_wrap: "currentDay w = 0 \<Longrightarrow> currentDay (prevDay w) = 4"
  by (simp add: prevDay_def)

lemma remove_keys:
  "getItem (snd (remove st w)) k = (if k \<in> {key_type, key_csv, key_image} then None else getItem st k)"
  by (simp add: remove_def getItem_removeItem)

lemma restore_no_type: "getItem st key_type = None \<Longrightarrow> restore st w = Inr w"
  by (simp add: restore_def)

text \<open>
  (C10) Remove ends in the empty page: no artifact is shown, the day and the modal
  flag are kept, the three timetable keys are gone from storage while every other key
  is untouched, and the mount effect on the resulting storage restores nothing.
\<close>

theorem remove_clears:
  "\<not> has_artifact (fst (remove st w)) \<and>
   currentDay (fst (remove st w)) = currentDay w \<and> isExpanded (fst (remove st w)) = isExpanded w \<and>
   getItem (snd (remove st w)) k = (if k \<in> {key_type, key_csv, key_image} then None else getItem st k) \<and>
   restore (snd (remove st w)) w0 = Inr w0"
  by (simp add: remove_keys restore_no_type) (simp add: remove_def has_artifact_def)


lemma handleFileUpload_cases:
  "handleFileUpload (Some f) =
     (if starts_with (type f) (js ''image/'') then Some (ReaderTask f ReadDataURL)
      else if type f = js ''text/csv'' then Some (ReaderTask f ReadText) else None)"
  by (simp add: handleFileUpload_def)

lemma render_table_rows: "render_table (rows_val rows) = Inr rows"
  by (simp add: render_table_def render_row_def rows_val_def comp_def)

lemma keys_distinct [simp]:
  "key_type \<noteq> key_csv" "key_type \<noteq> key_image" "key_csv \<noteq> key_image"
  "key_csv \<noteq> key_type" "key_image \<noteq> key_type" "key_image \<noteq> key_csv"
  by (simp_all add: key_type_def key_csv_def key_image_def js_lit)

lemma str_tree_rows_val [simp]: "str_tree (rows_val rows)"
  by (simp add: rows_val_def list_all_iff)

lemma stringify_nonempty: "str_tree v \<Longrightarrow> stringify v \<noteq> []"
  using str_tree_first by fastforce

lemma restore_csv:
  assumes "getItem st key_type = Some (js ''csv'')" and "getItem st key_csv = Some (stringify (rows_val rows))"
  shows "restore st w = Inr (w\<lparr>csvData := rows_val rows\<rparr>)"
  using assms stringify_nonempty [of "rows_val rows"]
  by (simp add: restore_def JSON_parse_stringify js_lit)

lemma restore_image:
  assumes "getItem st key_type = Some (js ''image'')" and "getItem st key_image = Some (readAsDataURL f)"
    and "plain_type (type f)"
  shows "restore st w = Inr (w\<lparr>uploadedFile := Some (f\<lparr>name := saved_image_name\<rparr>)\<rparr>)"
proof -
  have "readAsDataURL f \<noteq> []" by (simp add: readAsDataURL_def js_lit)
  with assms show ?thesis
    by (simp add: restore_def dataURLtoFile_readAsDataURL js_lit)
qed

lemma papa_complete_store:
  assumes "papa_complete f rows st w = (w', st', None)"
  shows "getItem st' key_type = Some (js ''csv'')" and "getItem st' key_csv = Some (stringify (rows_val rows))"
    and "\<And>k. k \<noteq> key_type \<Longrightarrow> k \<noteq> key_csv \<Longrightarrow> getItem st' k = getItem st k"
    and "w' = w\<lparr>uploadedFile := Some f, csvData := rows_val rows\<rparr>"
  using assms set_items_get [of st "[(key_type, js ''csv''), (key_csv, stringify (rows_val rows))]" st']
  by (auto simp: papa_complete_def split: prod.splits)

text \<open>
  (C3) After Papa's complete callback has stored the parsed rows without an
  exception, the mount effect run on that storage restores exactly those rows into
  csvData: JSON.parse inverts JSON.stringify on arrays of arrays of strings.
\<close>

theorem restore_after_papa_complete:
  assumes "papa_complete f rows st w = (w', st', None)"
  shows "restore st' w0 = Inr (w0\<lparr>csvData := rows_val rows\<rparr>)"
  using papa_complete_store [OF assms] by (intro restore_csv) auto

lemma reader_onload_image:
  assumes "is_image_file f"
  shows "reader_onload f r st w =
           (let (st', err) = set_items st [(key_type, js ''image''), (key_image, r)]
            in (w\<lparr>uploadedFile := Some f, csvData := JNull\<rparr>, st', None, err))"
  using assms by (simp add: reader_onload_def is_image_file_def)

lemma reader_onload_image_store:
  assumes "is_image_file f" and "reader_onload f r st w = (w', st', t, None)"
  shows "getItem st' key_type = Some (js ''image'')" and "getItem st' key_image = Some r"
    and "\<And>k. k \<noteq> key_type \<Longrightarrow> k \<noteq> key_image \<Longrightarrow> getItem st' k = getItem st k"
    and "w' = w\<lparr>uploadedFile := Some f, csvData := JNull\<rparr>" and "t = None"
  using assms(2) set_items_get [of st "[(key_type, js ''image''), (key_image, r)]" st']
  by (auto simp: reader_onload_image [OF assms(1)] split: prod.splits)

text \<open>
  (C4) After reader.onload has stored an image's data URL without an exception, the
  mount effect run on that storage restores a file with the same type and bytes
  (named saved-image.png), provided the type is one the data URL carries intact.
\<close>

theorem restore_after_image_onload:
  assumes "is_image_file f" and "plain_type (type f)"
    and "reader_onload f (readAsDataURL f) st w = (w', st', t, None)"
  shows "restore st' w0 = Inr (w0\<lparr>uploadedFile := Some (f\<lparr>name := saved_image_name\<rparr>)\<rparr>)"
  using reader_onload_image_store [OF assms(1,3)] assms(2) by (intro restore_image) auto

lemma reader_onload_image_error:
  assumes "is_image_file f" and "reader_onload f r st w = (w', st', t, Some e)"
  shows "w' = w\<lparr>uploadedFile := Some f, csvData := JNull\<rparr>" and "t = None" and "e = QuotaExceededError"
    and "getItem st' key_image = getItem st key_image"
    and "st' = st \<or> getItem st' key_type = Some (js ''image'')"
proof -
  have run: "set_items st [(key_type, js ''image''), (key_image, r)] = (st', Some e)"
    and w': "w' = w\<lparr>uploadedFile := Some f, csvData := JNull\<rparr>" and t: "t = None"
    using assms(2) by (auto simp: reader_onload_image [OF assms(1)] split: prod.splits)
  then show "w' = w\<lparr>uploadedFile := Some f, csvData := JNull\<rparr>" and "t = None" by simp_all
  from run show "e = QuotaExceededError" by (rule set_items_error)
  from set_items_torn [OF run] obtain pre k v post where
    eq: "[(key_type, js ''image''), (key_image, r)] = pre @ (k, v) # post"
    and pre: "set_items st pre = (st', None)" by blast
  from eq have "pre = [] \<or> pre = [(key_type, js ''image'')]"
    by (cases pre) (auto simp: Cons_eq_append_conv)
  then show "getItem st' key_image = getItem st key_image"
    and "st' = st \<or> getItem st' key_type = Some (js ''image'')"
    using pre set_items_get [OF pre] by auto
qed

lemma restore_no_image:
  "getItem st key_image = None \<Longrightarrow> restore st w = Inr w' \<Longrightarrow> uploadedFile w' = uploadedFile w"
  by (auto simp: restore_def Let_def split: if_splits option.splits sum.splits)

lemma reader_onload_csv:
  "type f = js ''text/csv'' \<or> ends_with (name f) (js ''.csv'') \<Longrightarrow>
     reader_onload f r st w = (w, st, Some (PapaTask f), None)"
  by (simp add: reader_onload_def)

lemma restore_after_papa_complete_witness:
  "\<exists>w' st'.
     papa_complete \<lparr>name = js ''data.csv'', type = js ''text/csv'', bytes = []\<rparr>
       [[js ''a'', js ''b''], [js ''c'', js ''d'']] (empty_storage 1000) initial_widget = (w', st', None) \<and>
     restore st' initial_widget =
       Inr (initial_widget\<lparr>csvData := rows_val [[js ''a'', js ''b''], [js ''c'', js ''d'']]\<rparr>)"
proof -
  have "snd (snd (papa_complete \<lparr>name = js ''data.csv'', type = js ''text/csv'', bytes = []\<rparr>
       [[js ''a'', js ''b''], [js ''c'', js ''d'']] (empty_storage 1000) initial_widget)) = None"
    by code_simp
  then obtain w' st' where eq: "papa_complete \<lparr>name = js ''data.csv'', type = js ''text/csv'', bytes = []\<rparr>
       [[js ''a'', js ''b''], [js ''c'', js ''d'']] (empty_storage 1000) initial_widget = (w', st', None)"
    by (metis prod.collapse)
  show ?thesis using eq restore_after_papa_complete [OF eq] by blast
qed

lemma restore_after_image_onload_witness:
  "\<exists>w' st' t.
     reader_onload \<lparr>name = js ''tt.png'', type = js ''image/png'', bytes = [0x89, 0x50, 0x4E, 0x47, 0x0D, 0x0A, 0x1A, 0x0A, 0, 0]\<rparr>
       (readAsDataURL \<lparr>name = js ''tt.png'', type = js ''image/png'', bytes = [0x89, 0x50, 0x4E, 0x47, 0x0D, 0x0A, 0x1A, 0x0A, 0, 0]\<rparr>)
       (empty_storage 1000) initial_widget = (w', st', t, None) \<and>
     restore st' initial_widget =
       Inr (initial_widget\<lparr>uploadedFile := Some \<lparr>name = js ''saved-image.png'', type = js ''image/png'', bytes = [0x89, 0x50, 0x4E, 0x47, 0x0D, 0x0A, 0x1A, 0x0A, 0, 0]\<rparr>\<rparr>)"
proof -
  let ?f = "\<lparr>name = js ''tt.png'', type = js ''image/png'', bytes = [0x89, 0x50, 0x4E, 0x47, 0x0D, 0x0A, 0x1A, 0x0A, 0, 0]\<rparr> :: js_file"
  have img: "is_image_file ?f" by (simp add: is_image_file_def starts_with_def ends_with_def js_lit)
  have pt: "plain_type (type ?f)" by (simp add: plain_type_def plain_char_def js_lit)
  have "snd (snd (snd (reader_onload ?f (readAsDataURL ?f) (empty_storage 1000) initial_widget))) = None"
    by code_simp
  then obtain w' st' t where eq: "reader_onload ?f (readAsDataURL ?f) (empty_storage 1000) initial_widget = (w', st', t, None)"
    by (metis prod.collapse)
  have "restore st' initial_widget = Inr (initial_widget\<lparr>uploadedFile := Some (?f\<lparr>name := saved_image_name\<rparr>)\<rparr>)"
    by (rule restore_after_image_onload [OF img pt eq])
  then show ?thesis using eq by (auto simp: saved_image_name_def)
qed


end
