(* ===== verification/System.thy ===== *)
theory System
  imports Widget
begin

text \<open>
  The widget in its page. The state holds the component's state, \<open>localStorage\<close>, the
  asynchronous work in flight (a \<open>FileReader\<close> whose \<open>onload\<close> has not run yet, a
  \<open>Papa.parse\<close> whose callback has not run yet), whether React still has the component
  mounted, and a log of the exceptions thrown by callbacks (a record of the run, not
  program state). Pending work completes in any order, and user events are only possible
  on controls the last render showed: the file input when there is no artifact, Remove
  when there is one, the slider arrows with the slider, the backdrop with the modal. An
  exception in the mount effect or in a render unmounts the component (React unmounts a
  root whose effect or render throws and no error boundary catches it); an exception in
  a \<open>FileReader\<close> or Papa callback is only logged. \<open>Reload\<close> drops the pending work,
  remounts the component and runs the mount effect on the stored data. PapaParse is a
  parameter: a function giving the rows of a file, or \<open>None\<close> when it calls its error
  callback.
\<close>

record sys =
  ui :: widget
  store :: storage
  tasks :: "task list"
  mounted :: bool
  console :: "js_error list"

type_synonym papa = "js_file \<Rightarrow> jstr list list option"

datatype event =
    SelectFile "js_file option"
  | ReaderDone nat jstr
  | PapaDone nat
  | ClickRemove
  | ClickPanel
  | ClickBackdrop
  | ClickPrev
  | ClickNext
  | Reload

definition remove_nth :: "nat \<Rightarrow> 'a list \<Rightarrow> 'a list" where
  "remove_nth i xs = take i xs @ drop (Suc i) xs"

definition opt_list :: "'a option \<Rightarrow> 'a list" where
  "opt_list x = (case x of None \<Rightarrow> [] | Some a \<Rightarrow> [a])"

text \<open>A state update reaches the screen through a render; a render that throws
  unmounts the component, and an unmounted component ignores updates.\<close>

definition commit :: "sys \<Rightarrow> widget \<Rightarrow> sys" where
  "commit s w =
     (if mounted s then (case render w of Inl e \<Rightarrow> s\<lparr>mounted := False\<rparr> | Inr v \<Rightarrow> s\<lparr>ui := w\<rparr>)
      else s)"

text \<open>Mounting: the first render of the initial state, then the effect of lines 28--45.\<close>

definition mount :: "sys \<Rightarrow> sys" where
  "mount s =
     (case restore (store s) initial_widget of
        Inl e \<Rightarrow> s\<lparr>ui := initial_widget, mounted := False\<rparr>
      | Inr w \<Rightarrow>
          (case render w of
             Inl e \<Rightarrow> s\<lparr>ui := w, mounted := False\<rparr>
           | Inr v \<Rightarrow> s\<lparr>ui := w, mounted := True\<rparr>))"

definition init_sys :: "storage \<Rightarrow> sys" where
  "init_sys st = mount \<lparr>ui = initial_widget, store = st, tasks = [], mounted = True, console = []\<rparr>"

text \<open>
  One event. \<open>ReaderDone i r\<close> runs the \<open>onload\<close> of the \<open>i\<close>-th pending read with
  the reader's result \<open>r\<close>: for a data-URL read it is the file's data URL; the text of a
  \<open>readAsText\<close> is not modelled (any string), the CSV path never reading it.
\<close>

fun step :: "papa \<Rightarrow> sys \<Rightarrow> event \<Rightarrow> sys option" where
  "step P s (SelectFile sel) =
     (if mounted s \<and> \<not> has_artifact (ui s) then
        Some (case handleFileUpload sel of None \<Rightarrow> s | Some t \<Rightarrow> s\<lparr>tasks := tasks s @ [t]\<rparr>)
      else None)"
| "step P s (ReaderDone i r) =
     (if i < length (tasks s) then
        (case tasks s ! i of
           ReaderTask f k \<Rightarrow>
             if k = ReadDataURL \<and> r \<noteq> readAsDataURL f then None
             else
               (let (w', st', t, err) = reader_onload f r (store s) (ui s)
                in Some (commit (s\<lparr>tasks := remove_nth i (tasks s) @ opt_list t, store := st',
                                   console := console s @ opt_list err\<rparr>) w'))
         | PapaTask f \<Rightarrow> None)
      else None)"
| "step P s (PapaDone i) =
     (if i < length (tasks s) then
        (case tasks s ! i of
           PapaTask f \<Rightarrow>
             (case P f of
                None \<Rightarrow>
                  (let (w', st') = papa_error (store s) (ui s)
                   in Some (commit (s\<lparr>tasks := remove_nth i (tasks s), store := st'\<rparr>) w'))
              | Some rows \<Rightarrow>
                  (let (w', st', err) = papa_complete f rows (store s) (ui s)
                   in Some (commit (s\<lparr>tasks := remove_nth i (tasks s), store := st',
                                      console := console s @ opt_list err\<rparr>) w')))
         | ReaderTask f k \<Rightarrow> None)
      else None)"
| "step P s ClickRemove =
     (if mounted s \<and> has_artifact (ui s) then
        (let (w', st') = remove (store s) (ui s) in Some (commit (s\<lparr>store := st'\<rparr>) w'))
      else None)"
| "step P s ClickPanel =
     (if mounted s then Some (if has_artifact (ui s) then commit s (toggleExpand (ui s)) else s)
      else None)"
| "step P s ClickBackdrop =
     (if mounted s \<and> isExpanded (ui s) \<and> has_artifact (ui s) then Some (commit s (toggleExpand (ui s)))
      else None)"
| "step P s ClickPrev =
     (if mounted s \<and> \<not> has_artifact (ui s) then Some (commit s (prevDay (ui s))) else None)"
| "step P s ClickNext =
     (if mounted s \<and> \<not> has_artifact (ui s) then Some (commit s (nextDay (ui s))) else None)"
| "step P s Reload = Some (mount (s\<lparr>tasks := []\<rparr>))"

fun run :: "papa \<Rightarrow> sys \<Rightarrow> event list \<Rightarrow> sys option" where
  "run P s [] = Some s"
| "run P s (e # es) = (case step P s e of None \<Rightarrow> None | Some s' \<Rightarrow> run P s' es)"

text \<open>
  The files a browser hands to the input: the type is derived from the file name, so it
  is a lower-case printable token without \<open>,\<close> or \<open>;\<close> (\<open>plain_type\<close>), and a name
  ending in \<open>.csv\<close> does not get an image type.
\<close>

definition browser_file :: "js_file \<Rightarrow> bool" where
  "browser_file f \<longleftrightarrow>
     plain_type (type f) \<and> (starts_with (type f) (js ''image/'') \<longrightarrow> \<not> ends_with (name f) (js ''.csv''))"

fun selectable :: "event \<Rightarrow> bool" where
  "selectable (SelectFile (Some f)) = browser_file f"
| "selectable e = True"

inductive reach :: "papa \<Rightarrow> storage \<Rightarrow> sys \<Rightarrow> bool" for P st0 where
  init: "reach P st0 (init_sys st0)"
| step: "reach P st0 s \<Longrightarrow> step P s e = Some s' \<Longrightarrow> selectable e \<Longrightarrow> reach P st0 s'"

section \<open>Invariants\<close>

text \<open>
  \<open>payloads_ok\<close>: every payload in storage is one the widget could have written (the
  JSON of some rows; the data URL of an image file a browser hands over), whatever the
  type key says. \<open>sys_ok\<close>: the component is mounted, its \<open>csvData\<close> is \<open>null\<close>
  or rows, its day is in range, the payloads are well formed and every pending task is
  one the handlers start. \<open>agrees\<close>: the mount effect run on the storage would show
  the artifact the page shows.
\<close>

definition rows_like :: "jsval \<Rightarrow> bool" where
  "rows_like v \<longleftrightarrow> v = JNull \<or> (\<exists>rows. v = rows_val rows)"

definition payloads_ok :: "storage \<Rightarrow> bool" where
  "payloads_ok st \<longleftrightarrow>
     (\<forall>c. getItem st key_csv = Some c \<longrightarrow> (\<exists>rows. c = stringify (rows_val rows))) \<and>
     (\<forall>d. getItem st key_image = Some d \<longrightarrow> (\<exists>f. browser_file f \<and> is_image_file f \<and> d = readAsDataURL f))"

fun task_ok :: "task \<Rightarrow> bool" where
  "task_ok (ReaderTask f k) \<longleftrightarrow> browser_file f \<and> handleFileUpload (Some f) = Some (ReaderTask f k)"
| "task_ok (PapaTask f) \<longleftrightarrow> browser_file f \<and> \<not> starts_with (type f) (js ''image/'')"

definition sys_ok :: "sys \<Rightarrow> bool" where
  "sys_ok s \<longleftrightarrow> mounted s \<and> rows_like (csvData (ui s)) \<and> day_ok (ui s) \<and> payloads_ok (store s) \<and>
     list_all task_ok (tasks s)"

definition same_artifact :: "widget \<Rightarrow> widget \<Rightarrow> bool" where
  "same_artifact w1 w2 \<longleftrightarrow>
     shown_image w1 = shown_image w2 \<and> csvData w1 = csvData w2 \<and> has_artifact w1 = has_artifact w2"

definition agrees :: "sys \<Rightarrow> bool" where
  "agrees s \<longleftrightarrow> (\<exists>w. restore (store s) initial_widget = Inr w \<and> same_artifact w (ui s))"

text \<open>\<open>down_on st\<close>: the component is unmounted, nothing is pending, and the storage is \<open>st\<close>.\<close>

definition down_on :: "storage \<Rightarrow> sys \<Rightarrow> bool" where
  "down_on st s \<longleftrightarrow> \<not> mounted s \<and> tasks s = [] \<and> store s = st"

section \<open>Properties\<close>

lemma set_items_value:
  "set_items st kvs = (st', e) \<Longrightarrow> getItem st' k = Some v \<Longrightarrow> getItem st k = Some v \<or> (k, v) \<in> set kvs"
proof (induction st kvs rule: set_items.induct)
  case (1 st)
  then show ?case by simp
next
  case (2 st k0 v0 kvs)
  show ?case
  proof (cases "setItem st k0 v0")
    case (Inl e')
    with "2.prems" show ?thesis by simp
  next
    case (Inr st1)
    with "2.prems" "2.IH" [OF Inr] getItem_setItem [OF Inr] show ?thesis
      by (auto split: if_splits)
  qed
qed

lemma render_rows_like: "rows_like (csvData w) \<Longrightarrow> \<exists>v. render w = Inr v"
  by (auto simp: rows_like_def render_def render_table_rows Let_def)

lemma plain_type_browser: "browser_file f \<Longrightarrow> plain_type (type f)"
  by (simp add: browser_file_def)

lemma restore_payloads_ok:
  assumes "payloads_ok st" and "rows_like (csvData w)"
  shows "\<exists>w'. restore st w = Inr w' \<and> rows_like (csvData w') \<and> currentDay w' = currentDay w \<and>
             isExpanded w' = isExpanded w"
proof -
  consider (csv) c where "getItem st key_type = Some (js ''csv'')" "getItem st key_csv = Some c"
    | (img) d where "getItem st key_type = Some (js ''image'')" "getItem st key_image = Some d"
    | (none) "\<not> (\<exists>c. getItem st key_type = Some (js ''csv'') \<and> getItem st key_csv = Some c)"
        "\<not> (\<exists>d. getItem st key_type = Some (js ''image'') \<and> getItem st key_image = Some d)"
    by blast
  then show ?thesis
  proof cases
    case csv
    with assms(1) obtain rows where "c = stringify (rows_val rows)" by (auto simp: payloads_ok_def)
    with csv restore_csv [of st rows w] show ?thesis by (auto simp: rows_like_def)
  next
    case img
    with assms(1) obtain f where "browser_file f" "d = readAsDataURL f" by (auto simp: payloads_ok_def)
    with img restore_image [of st f w] assms(2) show ?thesis by (auto simp: browser_file_def)
  next
    case none
    with assms(2) show ?thesis
      by (auto simp: restore_def js_lit split: option.splits)
  qed
qed

lemma commit_ok: "mounted s \<Longrightarrow> rows_like (csvData w) \<Longrightarrow> commit s w = s\<lparr>ui := w\<rparr>"
  using render_rows_like [of w] by (auto simp: commit_def split: sum.splits)

lemma mount_ok:
  assumes "payloads_ok (store s)"
  obtains w where "restore (store s) initial_widget = Inr w" "mount s = s\<lparr>ui := w, mounted := True\<rparr>"
    "rows_like (csvData w)" "day_ok w"
proof -
  have "rows_like (csvData initial_widget)" by (simp add: rows_like_def initial_widget_def)
  with assms obtain w where w: "restore (store s) initial_widget = Inr w" "rows_like (csvData w)"
    "currentDay w = 0"
    using restore_payloads_ok [of "store s" initial_widget] by (auto simp: initial_widget_def)
  then obtain v where "render w = Inr v" using render_rows_like by blast
  with w have "mount s = s\<lparr>ui := w, mounted := True\<rparr>" by (simp add: mount_def)
  with w that show ?thesis by (simp add: day_ok_def)
qed

lemma payloads_ok_remove: "payloads_ok st \<Longrightarrow> payloads_ok (snd (remove st w))"
  by (simp add: payloads_ok_def remove_keys)

lemma payloads_ok_image_write:
  assumes "payloads_ok st" and "browser_file f" and "is_image_file f"
    and "set_items st [(key_type, js ''image''), (key_image, readAsDataURL f)] = (st', e)"
  shows "payloads_ok st'"
proof -
  have "\<exists>rows. c = stringify (rows_val rows)" if "getItem st' key_csv = Some c" for c
    using set_items_value [OF assms(4) that] assms(1) by (auto simp: payloads_ok_def)
  moreover have "\<exists>g. browser_file g \<and> is_image_file g \<and> d = readAsDataURL g"
    if "getItem st' key_image = Some d" for d
    using set_items_value [OF assms(4) that] assms(1-3) by (auto simp: payloads_ok_def)
  ultimately show ?thesis by (simp add: payloads_ok_def)
qed

lemma payloads_ok_csv_write:
  assumes "payloads_ok st"
    and "set_items st [(key_type, js ''csv''), (key_csv, stringify (rows_val rows))] = (st', e)"
  shows "payloads_ok st'"
proof -
  have "\<exists>rows'. c = stringify (rows_val rows')" if "getItem st' key_csv = Some c" for c
    using set_items_value [OF assms(2) that] assms(1) by (auto simp: payloads_ok_def)
  moreover have "\<exists>g. browser_file g \<and> is_image_file g \<and> d = readAsDataURL g"
    if "getItem st' key_image = Some d" for d
    using set_items_value [OF assms(2) that] assms(1) by (auto simp: payloads_ok_def)
  ultimately show ?thesis by (simp add: payloads_ok_def)
qed

lemma set_remove_nth: "set (remove_nth i xs) \<subseteq> set xs"
  by (auto simp: remove_nth_def dest: in_set_takeD in_set_dropD)

lemma task_ok_nth: "list_all task_ok xs \<Longrightarrow> i < length xs \<Longrightarrow> task_ok (xs ! i)"
  by (simp add: list_all_length)

lemma tasks_ok_remove_nth: "list_all task_ok xs \<Longrightarrow> list_all task_ok (remove_nth i xs)"
  using set_remove_nth by (fastforce simp: list_all_iff)

lemma reader_task_image:
  "handleFileUpload (Some f) = Some (ReaderTask f k) \<Longrightarrow> starts_with (type f) (js ''image/'') \<Longrightarrow>
     k = ReadDataURL"
  by (simp add: handleFileUpload_def)

lemma csv_branch_not_image:
  "browser_file f \<Longrightarrow> type f = js ''text/csv'' \<or> ends_with (name f) (js ''.csv'') \<Longrightarrow>
     \<not> starts_with (type f) (js ''image/'')"
  by (auto simp: browser_file_def starts_with_def js_lit)

lemma sys_ok_select:
  assumes "sys_ok s" "step P s (SelectFile sel) = Some s'" "selectable (SelectFile sel)"
  shows "sys_ok s'"
proof (cases "handleFileUpload sel")
  case None
  with assms(2) show ?thesis using assms(1) by (auto split: if_splits)
next
  case (Some t)
  then obtain f where sel: "sel = Some f" by (cases sel) (auto simp: handleFileUpload_def)
  with Some assms(3) have "task_ok t"
    by (auto simp: handleFileUpload_def split: if_splits)
  with Some assms(1,2) show ?thesis by (auto simp: sys_ok_def split: if_splits)
qed

lemma sys_ok_reader:
  assumes ok: "sys_ok s" and st: "step P s (ReaderDone i r) = Some s'"
  shows "sys_ok s'"
proof -
  from st obtain f k where i: "i < length (tasks s)" and t: "tasks s ! i = ReaderTask f k"
    and rk: "\<not> (k = ReadDataURL \<and> r \<noteq> readAsDataURL f)"
    by (auto split: if_splits task.splits)
  from ok i t have bf: "browser_file f" and hf: "handleFileUpload (Some f) = Some (ReaderTask f k)"
    using task_ok_nth [of "tasks s" i] by (auto simp: sys_ok_def)
  obtain w' st' t' err where ro: "reader_onload f r (store s) (ui s) = (w', st', t', err)"
    by (metis prod_cases4)
  from st i t rk ro have s': "s' = commit (s\<lparr>tasks := remove_nth i (tasks s) @ opt_list t', store := st',
                                   console := console s @ opt_list err\<rparr>) w'"
    by simp
  have tasks_rest: "list_all task_ok (remove_nth i (tasks s))"
    using ok by (simp add: sys_ok_def tasks_ok_remove_nth)
  show ?thesis
  proof (cases "type f = js ''text/csv'' \<or> ends_with (name f) (js ''.csv'')")
    case True
    then have "w' = ui s" "st' = store s" "t' = Some (PapaTask f)"
      using ro by (simp_all add: reader_onload_csv)
    moreover have "task_ok (PapaTask f)" using bf True csv_branch_not_image by simp
    ultimately show ?thesis using ok tasks_rest s'
      by (simp add: sys_ok_def commit_ok opt_list_def)
  next
    case False
    show ?thesis
    proof (cases "starts_with (type f) (js ''image/'')")
      case True
      with False have img: "is_image_file f" by (simp add: is_image_file_def)
      with hf have "k = ReadDataURL" by (simp add: is_image_file_def reader_task_image)
      with rk have r: "r = readAsDataURL f" by simp
      from ro img have w': "w' = (ui s)\<lparr>uploadedFile := Some f, csvData := JNull\<rparr>" and "t' = None"
        and si: "set_items (store s) [(key_type, js ''image''), (key_image, r)] = (st', err)"
        by (auto simp: reader_onload_image split: prod.splits)
      have "payloads_ok st'"
        using payloads_ok_image_write [OF _ bf img si [unfolded r]] ok by (simp add: sys_ok_def)
      with ok tasks_rest s' w' \<open>t' = None\<close> show ?thesis
        by (simp add: sys_ok_def commit_ok opt_list_def rows_like_def day_ok_def)
    next
      case notimg: False
      with False ro have "w' = ui s" "st' = store s" "t' = None"
        by (simp_all add: reader_onload_def)
      with ok tasks_rest s' show ?thesis by (simp add: sys_ok_def commit_ok opt_list_def)
    qed
  qed
qed

lemma sys_ok_papa:
  assumes ok: "sys_ok s" and st: "step P s (PapaDone i) = Some s'"
  shows "sys_ok s'"
proof -
  from st obtain f where i: "i < length (tasks s)" and t: "tasks s ! i = PapaTask f"
    by (auto split: if_splits task.splits)
  have tasks_rest: "list_all task_ok (remove_nth i (tasks s))"
    using ok by (simp add: sys_ok_def tasks_ok_remove_nth)
  show ?thesis
  proof (cases "P f")
    case None
    with st i t have "s' = commit (s\<lparr>tasks := remove_nth i (tasks s)\<rparr>) (ui s)"
      by (simp add: papa_error_def)
    with ok tasks_rest show ?thesis by (simp add: sys_ok_def commit_ok)
  next
    case (Some rows)
    obtain st' err where si: "set_items (store s) [(key_type, js ''csv''), (key_csv, stringify (rows_val rows))] = (st', err)"
      by (metis prod.exhaust)
    let ?w = "(ui s)\<lparr>uploadedFile := Some f, csvData := rows_val rows\<rparr>"
    from st i t Some si have s': "s' = commit (s\<lparr>tasks := remove_nth i (tasks s), store := st',
                                      console := console s @ opt_list err\<rparr>) ?w"
      by (simp add: papa_complete_def)
    have "payloads_ok st'" using payloads_ok_csv_write [OF _ si] ok by (simp add: sys_ok_def)
    moreover have "rows_like (csvData ?w)" by (auto simp: rows_like_def)
    moreover have "day_ok ?w" using ok by (simp add: sys_ok_def day_ok_def)
    ultimately show ?thesis using ok tasks_rest s'
      by (simp add: sys_ok_def commit_ok)
  qed
qed

lemma sys_ok_remove:
  assumes ok: "sys_ok s" and st: "step P s ClickRemove = Some s'"
  shows "sys_ok s'"
proof -
  from st have s': "s' = commit (s\<lparr>store := snd (remove (store s) (ui s))\<rparr>) (fst (remove (store s) (ui s)))"
    by (auto split: if_splits prod.splits)
  have "payloads_ok (snd (remove (store s) (ui s)))" using ok payloads_ok_remove by (simp add: sys_ok_def)
  with ok s' show ?thesis
    by (simp add: sys_ok_def commit_ok remove_def rows_like_def day_ok_def)
qed

lemma sys_ok_toggle:
  assumes "sys_ok s" shows "sys_ok (commit s (toggleExpand (ui s)))"
  using assms by (simp add: sys_ok_def commit_ok toggleExpand_def day_ok_def)

lemma sys_ok_days:
  assumes "sys_ok s" shows "sys_ok (commit s (prevDay (ui s)))" and "sys_ok (commit s (nextDay (ui s)))"
  using assms prevDay_ok nextDay_ok
  by (simp_all add: sys_ok_def commit_ok prevDay_def nextDay_def)

lemma sys_ok_reload:
  assumes "sys_ok s" shows "sys_ok (mount (s\<lparr>tasks := []\<rparr>))"
proof -
  have "payloads_ok (store (s\<lparr>tasks := []\<rparr>))" using assms by (simp add: sys_ok_def)
  then obtain w where "mount (s\<lparr>tasks := []\<rparr>) = s\<lparr>tasks := [], ui := w, mounted := True\<rparr>"
    "rows_like (csvData w)" "day_ok w"
    by (rule mount_ok) auto
  with assms show ?thesis by (simp add: sys_ok_def)
qed

lemma step_sys_ok:
  assumes "sys_ok s" "step P s e = Some s'" "selectable e"
  shows "sys_ok s'"
proof (cases e)
  case (SelectFile sel)
  with assms show ?thesis using sys_ok_select by blast
next
  case (ReaderDone i r)
  with assms show ?thesis using sys_ok_reader by blast
next
  case (PapaDone i)
  with assms show ?thesis using sys_ok_papa by blast
next
  case ClickRemove
  with assms show ?thesis using sys_ok_remove by blast
next
  case ClickPanel
  with assms show ?thesis using sys_ok_toggle by (auto simp: sys_ok_def split: if_splits)
next
  case ClickBackdrop
  with assms show ?thesis using sys_ok_toggle by (auto split: if_splits)
next
  case ClickPrev
  with assms show ?thesis using sys_ok_days by (auto split: if_splits)
next
  case ClickNext
  with assms show ?thesis using sys_ok_days by (auto split: if_splits)
next
  case Reload
  with assms show ?thesis using sys_ok_reload by auto
qed

lemma sys_ok_init: "payloads_ok st0 \<Longrightarrow> sys_ok (init_sys st0)"
proof -
  assume p: "payloads_ok st0"
  let ?s0 = "\<lparr>ui = initial_widget, store = st0, tasks = [], mounted = True, console = []\<rparr>"
  obtain w where "mount ?s0 = ?s0\<lparr>ui := w, mounted := True\<rparr>" "rows_like (csvData w)" "day_ok w"
    using mount_ok [of ?s0] p by auto
  with p show ?thesis by (simp add: sys_ok_def init_sys_def)
qed

lemma reach_sys_ok: "reach P st0 s \<Longrightarrow> payloads_ok st0 \<Longrightarrow> sys_ok s"
  by (induction rule: reach.induct) (auto intro: sys_ok_init step_sys_ok)

lemma render_cong:
  assumes "same_artifact w1 w2" "currentDay w1 = currentDay w2" "isExpanded w1 = isExpanded w2"
  shows "render w1 = render w2"
proof -
  from assms(1) have "shown_image w1 = shown_image w2" "csvData w1 = csvData w2"
    "has_artifact w1 = has_artifact w2"
    by (simp_all add: same_artifact_def)
  then show ?thesis using assms(2,3) unfolding render_def Let_def by (simp only:)
qed

lemma same_artifact_refl [simp]: "same_artifact w w"
  by (simp add: same_artifact_def)

lemma same_artifact_view_update [simp]:
  "same_artifact w1 (w2\<lparr>isExpanded := b\<rparr>) = same_artifact w1 w2"
  "same_artifact w1 (w2\<lparr>currentDay := d\<rparr>) = same_artifact w1 w2"
  by (simp_all add: same_artifact_def shown_image_def has_artifact_def)

lemma console_step: "step P s e = Some s' \<Longrightarrow> \<exists>l. console s' = console s @ l"
  by (cases e) (auto simp: commit_def mount_def split: if_splits task.splits option.splits prod.splits sum.splits)

lemma agrees_cong: "store s' = store s \<Longrightarrow> ui s' = ui s \<Longrightarrow> agrees s' = agrees s"
  by (simp add: agrees_def)

lemma opt_list_Nil [simp]: "(opt_list x = []) = (x = None)"
  by (simp add: opt_list_def split: option.splits)

lemma agrees_reader:
  assumes ok: "sys_ok s" and ag: "agrees s" and st: "step P s (ReaderDone i r) = Some s'"
    and nc: "console s' = []"
  shows "agrees s'"
proof -
  from st obtain f k where i: "i < length (tasks s)" and t: "tasks s ! i = ReaderTask f k"
    and rk: "\<not> (k = ReadDataURL \<and> r \<noteq> readAsDataURL f)"
    by (auto split: if_splits task.splits)
  from ok i t have bf: "browser_file f" and hf: "handleFileUpload (Some f) = Some (ReaderTask f k)"
    using task_ok_nth [of "tasks s" i] by (auto simp: sys_ok_def)
  obtain w' st' t' err where ro: "reader_onload f r (store s) (ui s) = (w', st', t', err)"
    by (metis prod_cases4)
  let ?s1 = "s\<lparr>tasks := remove_nth i (tasks s) @ opt_list t', store := st', console := console s @ opt_list err\<rparr>"
  from st i t rk ro have s': "s' = commit ?s1 w'" by simp
  show ?thesis
  proof (cases "is_image_file f")
    case True
    with hf have "k = ReadDataURL" by (simp add: is_image_file_def reader_task_image)
    with rk have r: "r = readAsDataURL f" by simp
    from ro True have w': "w' = (ui s)\<lparr>uploadedFile := Some f, csvData := JNull\<rparr>"
      by (auto simp: reader_onload_image split: prod.splits)
    have "mounted s" using ok by (simp add: sys_ok_def)
    then have s'eq: "s' = ?s1\<lparr>ui := w'\<rparr>" using s' w' by (simp add: commit_ok rows_like_def)
    with nc have e: "err = None" by simp
    have "restore st' initial_widget = Inr (initial_widget\<lparr>uploadedFile := Some (f\<lparr>name := saved_image_name\<rparr>)\<rparr>)"
      using reader_onload_image_store [OF True ro [unfolded r e]] bf
      by (intro restore_image) (auto simp: browser_file_def r)
    moreover have "starts_with (type f) (js ''image/'')" using True by (simp add: is_image_file_def)
    ultimately show ?thesis using s'eq w'
      by (simp add: agrees_def same_artifact_def shown_image_def has_artifact_def initial_widget_def)
  next
    case False
    then have "w' = ui s \<and> st' = store s"
      using ro by (auto simp: reader_onload_def is_image_file_def split: if_splits)
    moreover have "mounted s" "rows_like (csvData (ui s))" using ok by (simp_all add: sys_ok_def)
    ultimately show ?thesis using ag s' by (simp add: commit_ok agrees_def)
  qed
qed

lemma agrees_papa:
  assumes ok: "sys_ok s" and ag: "agrees s" and st: "step P s (PapaDone i) = Some s'"
    and nc: "console s' = []"
  shows "agrees s'"
proof -
  from st obtain f where i: "i < length (tasks s)" and t: "tasks s ! i = PapaTask f"
    by (auto split: if_splits task.splits)
  from ok i t have ni: "\<not> starts_with (type f) (js ''image/'')"
    using task_ok_nth [of "tasks s" i] by (auto simp: sys_ok_def)
  have m: "mounted s" "rows_like (csvData (ui s))" using ok by (simp_all add: sys_ok_def)
  show ?thesis
  proof (cases "P f")
    case None
    with st i t m have "s' = s\<lparr>tasks := remove_nth i (tasks s)\<rparr>"
      by (simp add: papa_error_def commit_ok)
    with ag show ?thesis by (simp add: agrees_def)
  next
    case (Some rows)
    obtain w' st' err where pc: "papa_complete f rows (store s) (ui s) = (w', st', err)"
      by (metis prod_cases3)
    have w': "w' = (ui s)\<lparr>uploadedFile := Some f, csvData := rows_val rows\<rparr>"
      using pc by (auto simp: papa_complete_def split: prod.splits)
    have rl: "rows_like (csvData w')" using w' by (auto simp: rows_like_def)
    from st i t Some pc m rl have s'eq: "s' = s\<lparr>tasks := remove_nth i (tasks s), store := st',
                                      console := console s @ opt_list err, ui := w'\<rparr>"
      by (simp add: commit_ok)
    with nc have e: "err = None" by simp
    have "restore st' initial_widget = Inr (initial_widget\<lparr>csvData := rows_val rows\<rparr>)"
      using papa_complete_store [OF pc [unfolded e]] by (intro restore_csv) auto
    with s'eq w' ni show ?thesis
      by (simp add: agrees_def same_artifact_def shown_image_def has_artifact_def initial_widget_def
          rows_val_def)
  qed
qed

lemma agrees_step:
  assumes ok: "sys_ok s" and ag: "agrees s" and st: "step P s e = Some s'" and nc: "console s' = []"
  shows "agrees s'"
proof -
  have m: "mounted s" "rows_like (csvData (ui s))" using ok by (simp_all add: sys_ok_def)
  show ?thesis
  proof (cases e)
    case (SelectFile sel)
    with st ag show ?thesis by (auto simp: agrees_def split: if_splits option.splits)
  next
    case (ReaderDone i r)
    with assms show ?thesis using agrees_reader by blast
  next
    case (PapaDone i)
    with assms show ?thesis using agrees_papa by blast
  next
    case ClickRemove
    then have s': "s' = s\<lparr>store := snd (remove (store s) (ui s)), ui := fst (remove (store s) (ui s))\<rparr>"
      using st m by (auto simp: commit_ok remove_def rows_like_def split: if_splits)
    have "getItem (snd (remove (store s) (ui s))) key_type = None" by (simp add: remove_keys)
    then show ?thesis using s'
      by (simp add: agrees_def restore_no_type same_artifact_def shown_image_def has_artifact_def
          initial_widget_def remove_def)
  next
    case ClickPanel
    with st m ag show ?thesis
      by (auto simp: commit_ok toggleExpand_def agrees_def split: if_splits)
  next
    case ClickBackdrop
    with st m ag show ?thesis
      by (auto simp: commit_ok toggleExpand_def agrees_def split: if_splits)
  next
    case ClickPrev
    with st m ag show ?thesis
      by (auto simp: commit_ok prevDay_def agrees_def split: if_splits)
  next
    case ClickNext
    with st m ag show ?thesis
      by (auto simp: commit_ok nextDay_def agrees_def split: if_splits)
  next
    case Reload
    have "payloads_ok (store (s\<lparr>tasks := []\<rparr>))" using ok by (simp add: sys_ok_def)
    then obtain w where "restore (store s) initial_widget = Inr w"
      "mount (s\<lparr>tasks := []\<rparr>) = s\<lparr>tasks := [], ui := w, mounted := True\<rparr>"
      by (rule mount_ok) auto
    with Reload st show ?thesis by (auto simp: agrees_def)
  qed
qed

lemma console_step_Nil: "step P s e = Some s' \<Longrightarrow> console s' = [] \<Longrightarrow> console s = []"
  using console_step by fastforce

lemma agrees_init: "payloads_ok st0 \<Longrightarrow> agrees (init_sys st0)"
proof -
  assume p: "payloads_ok st0"
  let ?s0 = "\<lparr>ui = initial_widget, store = st0, tasks = [], mounted = True, console = []\<rparr>"
  obtain w where "restore st0 initial_widget = Inr w" "mount ?s0 = ?s0\<lparr>ui := w, mounted := True\<rparr>"
    using mount_ok [of ?s0] p by auto
  then show ?thesis by (simp add: agrees_def init_sys_def)
qed

lemma reach_agrees: "reach P st0 s \<Longrightarrow> payloads_ok st0 \<Longrightarrow> console s = [] \<Longrightarrow> agrees s"
proof (induction rule: reach.induct)
  case init
  from init.prems(1) show ?case by (rule agrees_init)
next
  case (step s e s')
  then have "console s = []" using console_step_Nil by blast
  with step have "agrees s" and "sys_ok s" by (simp_all add: reach_sys_ok)
  with step show ?case using agrees_step by blast
qed

text \<open>
  (C1) In every run of the page from storage that holds only payloads the widget
  writes, in which no callback has thrown, reloading the page mounts the widget again
  and renders exactly what was rendered before the reload, except that the day slider
  and the modal return to their initial state: what is shown is what is persisted.
\<close>

theorem reload_shows_same_view:
  assumes "reach P st0 s" and "payloads_ok st0" and "console s = []" and "step P s Reload = Some s'"
  shows "mounted s' \<and> render (ui s') = render ((ui s)\<lparr>currentDay := 0, isExpanded := False\<rparr>)"
proof -
  have ok: "sys_ok s" using assms(1,2) by (rule reach_sys_ok)
  obtain w where rw: "restore (store s) initial_widget = Inr w" and sa: "same_artifact w (ui s)"
    using reach_agrees [OF assms(1-3)] by (auto simp: agrees_def)
  have "payloads_ok (store (s\<lparr>tasks := []\<rparr>))" using ok by (simp add: sys_ok_def)
  then obtain w' where "restore (store s) initial_widget = Inr w'"
    and mt: "mount (s\<lparr>tasks := []\<rparr>) = s\<lparr>tasks := [], ui := w', mounted := True\<rparr>"
    by (rule mount_ok) auto
  with rw have "w' = w" by simp
  have "currentDay w = 0 \<and> isExpanded w = False"
    using restore_payloads_ok [of "store s" initial_widget] ok rw
    by (auto simp: sys_ok_def rows_like_def initial_widget_def)
  then have "render w = render ((ui s)\<lparr>currentDay := 0, isExpanded := False\<rparr>)"
    using sa by (intro render_cong) simp_all
  moreover have "s' = mount (s\<lparr>tasks := []\<rparr>)" using assms(4) by simp
  ultimately show ?thesis using mt \<open>w' = w\<close> by simp
qed

section \<open>Properties of runs\<close>

lemma reach_run:
  "run P s es = Some s' \<Longrightarrow> reach P st0 s \<Longrightarrow> list_all selectable es \<Longrightarrow> reach P st0 s'"
proof (induction es arbitrary: s)
  case Nil
  then show ?case by simp
next
  case (Cons e es)
  then obtain s1 where s1: "step P s e = Some s1" and r: "run P s1 es = Some s'"
    by (auto split: option.splits)
  with Cons.prems have "reach P st0 s1" by (auto intro: reach.step)
  with Cons.IH r Cons.prems show ?case by simp
qed

lemma restore_day: "restore st w = Inr w' \<Longrightarrow> currentDay w' = currentDay w"
  by (auto simp: restore_def Let_def split: if_splits option.splits sum.splits)

lemma mount_day: "day_ok (ui (mount s))"
  by (auto simp: mount_def day_ok_def initial_widget_def dest: restore_day split: sum.splits)

lemma commit_day: "day_ok (ui s) \<Longrightarrow> day_ok w \<Longrightarrow> day_ok (ui (commit s w))"
  by (simp add: commit_def split: sum.splits)

lemma day_ok_fields [simp]:
  "day_ok (w\<lparr>uploadedFile := x\<rparr>) = day_ok w" "day_ok (w\<lparr>csvData := v\<rparr>) = day_ok w"
  "day_ok (w\<lparr>isExpanded := b\<rparr>) = day_ok w"
  by (simp_all add: day_ok_def)

lemma step_day_ok: "step P s e = Some s' \<Longrightarrow> day_ok (ui s) \<Longrightarrow> day_ok (ui s')"
proof (cases e)
  case (ReaderDone i r)
  moreover assume "step P s e = Some s'" "day_ok (ui s)"
  ultimately show ?thesis
    by (auto simp: reader_onload_def commit_day split: if_splits task.splits prod.splits)
next
  case (PapaDone i)
  moreover assume "step P s e = Some s'" "day_ok (ui s)"
  ultimately show ?thesis
    by (auto simp: papa_complete_def papa_error_def commit_day split: if_splits task.splits option.splits prod.splits)
qed (auto simp: remove_def toggleExpand_def commit_day mount_day prevDay_ok nextDay_ok
          split: if_splits option.splits prod.splits)

text \<open>
  (C8) In every reachable state of the page the day index is between 0 and 4.
\<close>

theorem day_in_range: "reach P st0 s \<Longrightarrow> 0 \<le> currentDay (ui s) \<and> currentDay (ui s) \<le> 4"
proof -
  assume "reach P st0 s"
  then have "day_ok (ui s)"
  proof (induction rule: reach.induct)
    case init
    show ?case by (simp add: init_sys_def mount_day)
  next
    case (step s e s')
    then show ?case using step_day_ok by blast
  qed
  then show ?thesis by (simp add: day_ok_def)
qed

text \<open>
  (C2) From storage that holds only payloads the widget writes, no run of the page,
  in any order of the pending reads and parses and even when localStorage runs out of
  quota, makes the mount effect or a render throw: the component stays mounted.
\<close>

theorem page_never_unmounts: "reach P st0 s \<Longrightarrow> payloads_ok st0 \<Longrightarrow> mounted s"
  using reach_sys_ok by (simp add: sys_ok_def)

lemma payloads_ok_empty [simp]: "payloads_ok (empty_storage q)"
  by (simp add: payloads_ok_def getItem_def empty_storage_def)

lemma reload_shows_same_view_witness:
  "\<exists>s s'. reach (\<lambda>f. Some [[js ''a'', js ''b''], [js ''c'', js ''d'']]) (empty_storage 1000) s \<and>
     payloads_ok (empty_storage 1000) \<and> console s = [] \<and>
     step (\<lambda>f. Some [[js ''a'', js ''b''], [js ''c'', js ''d'']]) s Reload = Some s' \<and>
     has_artifact (ui s) \<and>
     mounted s' \<and> render (ui s') = render ((ui s)\<lparr>currentDay := 0, isExpanded := False\<rparr>)"
proof -
  let ?P = "\<lambda>f::js_file. Some [[js ''a'', js ''b''], [js ''c'', js ''d'']]"
  let ?es = "[SelectFile (Some \<lparr>name = js ''data.csv'', type = js ''text/csv'', bytes = []\<rparr>),
              ReaderDone 0 [], PapaDone 0]"
  have "run ?P (init_sys (empty_storage 1000)) ?es \<noteq> None" by code_simp
  then obtain s where r: "run ?P (init_sys (empty_storage 1000)) ?es = Some s" by blast
  have "console (the (run ?P (init_sys (empty_storage 1000)) ?es)) = [] \<and>
        has_artifact (ui (the (run ?P (init_sys (empty_storage 1000)) ?es)))"
    by code_simp
  with r have c: "console s = []" and a: "has_artifact (ui s)" by simp_all
  have sel: "list_all selectable ?es"
    by (simp add: browser_file_def plain_type_def plain_char_def starts_with_def js_lit)
  have rs: "reach ?P (empty_storage 1000) s"
    using reach_run [OF r reach.init sel] .
  obtain s' where st: "step ?P s Reload = Some s'" by simp
  show ?thesis
    using reload_shows_same_view [OF rs payloads_ok_empty c st] rs c st a payloads_ok_empty [of 1000]
    by blast
qed

lemma day_in_range_witness:
  "reach (\<lambda>f. None) (empty_storage 100)
     (the (run (\<lambda>f. None) (init_sys (empty_storage 100)) [ClickPrev, ClickPrev])) \<and>
   0 \<le> currentDay (ui (the (run (\<lambda>f. None) (init_sys (empty_storage 100)) [ClickPrev, ClickPrev]))) \<and>
   currentDay (ui (the (run (\<lambda>f. None) (init_sys (empty_storage 100)) [ClickPrev, ClickPrev]))) \<le> 4"
proof -
  have "run (\<lambda>f. None) (init_sys (empty_storage 100)) [ClickPrev, ClickPrev] \<noteq> None" by code_simp
  then obtain s where r: "run (\<lambda>f. None) (init_sys (empty_storage 100)) [ClickPrev, ClickPrev] = Some s"
    by blast
  have "reach (\<lambda>f. None) (empty_storage 100) s" using reach_run [OF r reach.init] by simp
  with r show ?thesis using day_in_range [of "\<lambda>f. None" "empty_storage 100" s] by simp
qed

lemma console_commit [simp]: "console (commit s w) = console s"
  by (simp add: commit_def split: sum.splits)

lemma mount_no_image: "getItem (store s) key_image = None \<Longrightarrow> uploadedFile (ui (mount s)) = None"
  by (auto simp: mount_def initial_widget_def dest: restore_no_image split: sum.splits)

text \<open>
  (C5) The two storage writes of an image upload are not atomic. Whenever reader.onload
  of an image throws, the error is QuotaExceededError, the page shows the new image,
  the stored image payload is the one from before the upload, and storage either is
  unchanged or now carries the image type tag; if no image was stored before, a
  reload shows no image.
\<close>

theorem quota_torn_write:
  assumes "mounted s" and "is_image_file f" and "i < length (tasks s)"
    and "tasks s ! i = ReaderTask f ReadDataURL"
    and "step P s (ReaderDone i r) = Some s'" and "console s' \<noteq> console s"
  shows "console s' = console s @ [QuotaExceededError] \<and> uploadedFile (ui s') = Some f \<and>
         getItem (store s') key_image = getItem (store s) key_image \<and>
         (store s' = store s \<or> getItem (store s') key_type = Some (js ''image'')) \<and>
         (getItem (store s) key_image = None \<longrightarrow> uploadedFile (ui (the (step P s' Reload))) = None)"
proof -
  obtain w' st' t err where ro: "reader_onload f r (store s) (ui s) = (w', st', t, err)"
    by (cases "reader_onload f r (store s) (ui s)") auto
  let ?s1 = "s\<lparr>tasks := remove_nth i (tasks s) @ opt_list t, store := st', console := console s @ opt_list err\<rparr>"
  from assms(3-5) ro have s': "s' = commit ?s1 w'"
    by (auto split: if_splits)
  with assms(6) obtain e where err: "err = Some e" by (cases err) (auto simp: opt_list_def)
  note facts = reader_onload_image_error [OF assms(2) ro [unfolded err]]
  have "rows_like (csvData w')" by (simp add: facts(1) rows_like_def)
  then have s'': "s' = ?s1\<lparr>ui := w'\<rparr>" using s' assms(1) by (simp add: commit_ok)
  have "getItem (store s) key_image = None \<longrightarrow> uploadedFile (ui (the (step P s' Reload))) = None"
    using facts(4) s'' by (auto intro: mount_no_image)
  with s'' facts show ?thesis by (simp add: err opt_list_def)
qed

lemma quota_torn_write_witness:
  "let P = (\<lambda>f. None) :: papa;
       f = \<lparr>name = js ''tt.png'', type = js ''image/png'',
            bytes = [0x89, 0x50, 0x4E, 0x47, 0x0D, 0x0A, 0x1A, 0x0A, 0, 0]\<rparr> :: js_file;
       s = the (run P (init_sys (empty_storage 40)) [SelectFile (Some f)]);
       s' = the (step P s (ReaderDone 0 (readAsDataURL f)))
   in mounted s \<and> is_image_file f \<and> 0 < length (tasks s) \<and> tasks s ! 0 = ReaderTask f ReadDataURL \<and>
      step P s (ReaderDone 0 (readAsDataURL f)) = Some s' \<and> console s' \<noteq> console s \<and>
      console s' = console s @ [QuotaExceededError] \<and> uploadedFile (ui s') = Some f \<and>
      getItem (store s') key_image = None \<and> getItem (store s') key_type = Some (js ''image'') \<and>
      uploadedFile (ui (the (step P s' Reload))) = None"
proof -
  let ?P = "(\<lambda>f. None) :: papa"
  let ?f = "\<lparr>name = js ''tt.png'', type = js ''image/png'',
            bytes = [0x89, 0x50, 0x4E, 0x47, 0x0D, 0x0A, 0x1A, 0x0A, 0, 0]\<rparr> :: js_file"
  let ?s = "the (run ?P (init_sys (empty_storage 40)) [SelectFile (Some ?f)])"
  let ?s' = "the (step ?P ?s (ReaderDone 0 (readAsDataURL ?f)))"
  have h: "mounted ?s \<and> is_image_file ?f \<and> 0 < length (tasks ?s) \<and> tasks ?s ! 0 = ReaderTask ?f ReadDataURL \<and>
      step ?P ?s (ReaderDone 0 (readAsDataURL ?f)) = Some ?s' \<and> console ?s' \<noteq> console ?s \<and>
      getItem (store ?s) key_image = None \<and> getItem (store ?s') key_type = Some (js ''image'')"
    by code_simp
  then have "console ?s' = console ?s @ [QuotaExceededError] \<and> uploadedFile (ui ?s') = Some ?f \<and>
      getItem (store ?s') key_image = getItem (store ?s) key_image \<and>
      (getItem (store ?s) key_image = None \<longrightarrow> uploadedFile (ui (the (step ?P ?s' Reload))) = None)"
    using quota_torn_write [of ?s ?f 0 ?P "readAsDataURL ?f" ?s'] by blast
  with h show ?thesis by (simp only: Let_def) simp
qed


text \<open>
  (C6) A file whose type is neither an image type nor text/csv is never read,
  whatever its name: selecting it leaves the whole page state unchanged, so the .csv
  name test in reader.onload never accepts such a file.
\<close>

theorem csv_name_not_read:
  "\<not> starts_with (type f) (js ''image/'') \<Longrightarrow> type f \<noteq> js ''text/csv'' \<Longrightarrow>
     step P s (SelectFile (Some f)) = (if mounted s \<and> \<not> has_artifact (ui s) then Some s else None)"
  by (simp add: handleFileUpload_def)

lemma csv_name_not_read_witness:
  "\<not> starts_with (js ''application/vnd.ms-excel'') (js ''image/'') \<and>
   js ''application/vnd.ms-excel'' \<noteq> js ''text/csv'' \<and>
   step (\<lambda>f. None) (init_sys (empty_storage 100))
     (SelectFile (Some \<lparr>name = js ''timetable.csv'', type = js ''application/vnd.ms-excel'', bytes = [0x61, 0x2C, 0x62]\<rparr>))
   = Some (init_sys (empty_storage 100))"
proof -
  have a: "\<not> starts_with (js ''application/vnd.ms-excel'') (js ''image/'')"
    by (simp add: starts_with_def js_lit)
  have b: "js ''application/vnd.ms-excel'' \<noteq> js ''text/csv''" by (simp add: js_lit)
  have c: "mounted (init_sys (empty_storage 100)) \<and> \<not> has_artifact (ui (init_sys (empty_storage 100)))"
    by code_simp
  show ?thesis
    using csv_name_not_read [of "\<lparr>name = js ''timetable.csv'', type = js ''application/vnd.ms-excel'', bytes = [0x61, 0x2C, 0x62]\<rparr>"
        "\<lambda>f. None" "init_sys (empty_storage 100)"] a b c
    by simp
qed

lemma page_never_unmounts_witness:
  "reach (\<lambda>f. None) (empty_storage 100)
     (the (run (\<lambda>f. None) (init_sys (empty_storage 100)) [ClickNext, Reload])) \<and>
   payloads_ok (empty_storage 100) \<and>
   mounted (the (run (\<lambda>f. None) (init_sys (empty_storage 100)) [ClickNext, Reload]))"
proof -
  have "run (\<lambda>f. None) (init_sys (empty_storage 100)) [ClickNext, Reload] \<noteq> None" by code_simp
  then obtain s where r: "run (\<lambda>f. None) (init_sys (empty_storage 100)) [ClickNext, Reload] = Some s"
    by blast
  have "reach (\<lambda>f. None) (empty_storage 100) s" using reach_run [OF r reach.init] by simp
  with r show ?thesis using page_never_unmounts [of "\<lambda>f. None" "empty_storage 100" s] by simp
qed

lemma mount_corrupt:
  assumes "restore (store s) initial_widget = Inl e"
  shows "\<not> mounted (mount s)" and "store (mount s) = store s" and "tasks (mount s) = tasks s"
  using assms by (simp_all add: mount_def)

lemma step_down:
  assumes "down_on st s" and "restore st initial_widget = Inl e" and "step P s ev = Some s'"
  shows "down_on st s'"
proof (cases ev)
  case Reload
  with assms show ?thesis by (auto simp: down_on_def mount_corrupt)
qed (use assms in \<open>auto simp: down_on_def split: if_splits\<close>)

lemma run_down:
  "down_on st s \<Longrightarrow> restore st initial_widget = Inl e \<Longrightarrow> run P s es = Some s' \<Longrightarrow> down_on st s'"
proof (induction es arbitrary: s)
  case Nil
  then show ?case by simp
next
  case (Cons ev es)
  then obtain s1 where "step P s ev = Some s1" "run P s1 es = Some s'" by (auto split: option.splits)
  with Cons show ?case using step_down by blast
qed

text \<open>
  (C7) When storage holds the csv type tag with a non-empty CSV entry that is not
  JSON, the mount effect throws: the component is unmounted after the first load and
  after every sequence of events, reloads included.
\<close>

theorem corrupt_csv_keeps_page_down:
  assumes "getItem st key_type = Some (js ''csv'')" and "getItem st key_csv = Some c" and "c \<noteq> []"
    and "JSON_parse c = Inl e" and "run P (init_sys st) es = Some s"
  shows "\<not> mounted s"
proof -
  have r: "restore st initial_widget = Inl e"
    using assms(1-4) by (simp add: restore_def)
  have "down_on st (init_sys st)"
    using mount_corrupt [of "\<lparr>ui = initial_widget, store = st, tasks = [], mounted = True, console = []\<rparr>"] r
    by (simp add: down_on_def init_sys_def)
  then have "down_on st s" using r assms(5) by (rule run_down)
  then show ?thesis by (simp add: down_on_def)
qed

lemma corrupt_csv_keeps_page_down_witness:
  "getItem \<lparr>items = [(key_type, js ''csv''), (key_csv, js ''{'')], quota = 100\<rparr> key_type = Some (js ''csv'') \<and>
   getItem \<lparr>items = [(key_type, js ''csv''), (key_csv, js ''{'')], quota = 100\<rparr> key_csv = Some (js ''{'') \<and>
   js ''{'' \<noteq> [] \<and> JSON_parse (js ''{'') = Inl SyntaxError \<and>
   run (\<lambda>f. None) (init_sys \<lparr>items = [(key_type, js ''csv''), (key_csv, js ''{'')], quota = 100\<rparr>) [Reload, Reload]
     \<noteq> None \<and>
   \<not> mounted (the (run (\<lambda>f. None) (init_sys \<lparr>items = [(key_type, js ''csv''), (key_csv, js ''{'')], quota = 100\<rparr>) [Reload, Reload]))"
proof -
  let ?st = "\<lparr>items = [(key_type, js ''csv''), (key_csv, js ''{'')], quota = 100\<rparr>"
  have g: "getItem ?st key_type = Some (js ''csv'')" "getItem ?st key_csv = Some (js ''{'')"
    by (simp_all add: getItem_def)
  have j: "JSON_parse (js ''{'') = Inl SyntaxError" by code_simp
  have "run (\<lambda>f. None) (init_sys ?st) [Reload, Reload] \<noteq> None" by simp
  then obtain s where r: "run (\<lambda>f. None) (init_sys ?st) [Reload, Reload] = Some s" by blast
  have "\<not> mounted s"
    using corrupt_csv_keeps_page_down [OF g _ j r] by (simp add: js_lit)
  with g j r show ?thesis by (simp add: js_lit)
qed

end
