(* ===== verification/Spec2Isabelle.thy ===== *)
theory Spec2Isabelle
  imports System
begin

text \<open>
  \<^bold>\<open>A verification model of the timetable widget of gecian_hub.\<close>

  The repository is a Next.js dashboard. Its only component with behaviour beyond layout
  is \<open>TimeTableBlock\<close> (\<open>src/src/components/home/TimeTable.tsx\<close>): it accepts an
  uploaded CSV or image, shows it, persists it in the browser's \<open>localStorage\<close> under
  the keys \<open>timetableType\<close>, \<open>timetableCSV\<close> and \<open>timetableImage\<close>, restores it on
  mount, removes it on request, and otherwise shows a day slider. \<open>RootLayout\<close>
  (\<open>src/src/app/layout.tsx\<close>) only composes navigation chrome and is not modelled.

  \<^bold>\<open>Theories.\<close>
  \<^item> \<open>Prelude\<close>: JavaScript strings as lists of UTF-16 code units (\<open>jstr\<close>), bytes
    as \<open>8 word\<close>, the exceptions of the model (\<open>js_error\<close>), the string built-ins
    \<open>startsWith\<close>, \<open>endsWith\<close> and \<open>split\<close>, and shared list lemmas.
  \<^item> \<open>LocalStorage\<close>: the Web Storage map with its quota (\<open>getItem\<close>,
    \<open>setItem\<close>, which may throw \<open>QuotaExceededError\<close>, \<open>removeItem\<close>), and
    \<open>set_items\<close>, a run of \<open>setItem\<close> statements that stops at an exception.
  \<^item> \<open>Base64\<close>: RFC 4648 encoding and the HTML forgiving-base64 decoding of \<open>atob\<close>,
    with the round trip \<open>atob_b64_encode\<close>.
  \<^item> \<open>DataUrl\<close>: \<open>FileReader.readAsDataURL\<close>, the \<open>File\<close> constructor and the
    repository's \<open>dataURLtoFile\<close> (lines 7--15) with its regular expression and its
    \<open>while (n--)\<close> copy loop (\<open>fill_loop\<close>); the round trip
    \<open>dataURLtoFile_readAsDataURL\<close> for the media types browsers report.
  \<^item> \<open>Json\<close>: \<open>JSON.stringify\<close> and \<open>JSON.parse\<close> over a datatype of JavaScript values;
    the parser is bounded by fuel (the length of the input plus one, enough because every
    unit of fuel consumes a code unit), and \<open>JSON_parse_stringify\<close> shows that it inverts
    \<open>stringify\<close> on nested arrays of strings, which is what the widget stores.
  \<^item> \<open>Widget\<close>: the component's state (its four \<open>useState\<close> hooks), its handlers
    (\<open>toggleExpand\<close>, \<open>nextDay\<close>, \<open>prevDay\<close>, the mount effect \<open>restore\<close>,
    \<open>handleFileUpload\<close>, \<open>reader_onload\<close>, \<open>papa_complete\<close>, \<open>papa_error\<close>,
    \<open>remove\<close>) and \<open>render\<close>, the JSX as a \<open>view\<close> record; a render that calls
    \<open>.map\<close> on a non-array or renders an object throws, as React does.
  \<^item> \<open>System\<close>: the page around the component. Its state \<open>sys\<close> holds the widget
    state, \<open>localStorage\<close>, the \<open>FileReader\<close> and \<open>Papa.parse\<close> work in flight, whether
    React still has the component mounted, and the exceptions callbacks threw. \<open>step\<close>
    runs one event: a file selected in the input (line 112), a pending read or parse
    completing (in any order), a click on Remove, on the panel or on the modal backdrop,
    a slider arrow, or a reload, which runs \<open>mount\<close> (first render, then the effect of
    lines 28--45). An exception in the effect or a render unmounts the component; one in a
    callback is logged. \<open>reach\<close> is the set of states reachable from a page load on a
    given storage by events on the controls the page shows, with files as a browser
    reports them (\<open>browser_file\<close>: the type comes from the extension, so it is a plain
    lower-case token and a \<open>.csv\<close> name has no image type). PapaParse is a parameter.

  \<^bold>\<open>What is proved.\<close> Claims C1--C11, in order of importance.
  \<^item> Persistence (C1): in every run from storage holding only payloads the widget writes
    in which no callback threw, a reload shows what was shown before, except the day
    slider and the modal, which reset. The proof is a rule induction over \<open>reach\<close> with
    the invariant \<open>agrees\<close> (the mount effect on the storage would restore the artifact
    shown).
  \<^item> Safety (C2, C8): from such storage no interleaving of events, quota errors included,
    makes the effect or a render throw, and the day index stays in 0..4 (invariant
    \<open>sys_ok\<close>, preserved by every \<open>step\<close>).
  \<^item> Round trips (C3, C4): what \<open>papa_complete\<close> and \<open>reader_onload\<close> store is read back
    by \<open>restore\<close>, through \<open>JSON_parse_stringify\<close>, \<open>atob_b64_encode\<close> and
    \<open>dataURLtoFile_readAsDataURL\<close>.
  \<^item> Defects (C5, C6, C7): the tag is written before the payload, so whenever the
    image callback throws (only \<open>QuotaExceededError\<close> can be thrown) the page shows
    the new image while storage keeps the old payload, possibly under the new tag, and a
    reload does not show the new image (C5, for every state, with a concrete 10-byte PNG
    against a 40-unit quota as witness; the prefix lemma \<open>set_items_torn\<close> of
    \<open>LocalStorage\<close> carries it). A \<open>.csv\<close> file reported with a type other than
    \<open>text/csv\<close> is ignored (C6); a corrupt CSV entry keeps the page down after every event
    and reload (C7).
  \<^item> Handlers (C9, C10, C11): n clicks of Next or Prev rotate the day by n modulo 5;
    Remove leaves no artifact, deletes exactly the three keys, and leaves storage from
    which the mount effect restores nothing; the \<open>while (n--)\<close> loop copies the decoded
    string.

  \<^bold>\<open>Fuel.\<close> \<open>JSON_parse\<close> gives the recursive-descent parser the input length plus one;
  every nested call consumes at least one code unit first, so this is enough for every
  input the parser accepts, and the round trip proves it returns on what \<open>stringify\<close>
  writes. All other loops are structural recursion.

  \<^bold>\<open>Not modelled.\<close> The layout and navigation components (\<open>layout.tsx\<close>,
  \<open>TimeTableSlider\<close>, which only renders its props); the CSV parser itself (PapaParse is a
  parameter: a function from the file to its rows, or an error); UTF-8 decoding of
  \<open>readAsText\<close>, whose result the CSV path never uses; the numeric value of JSON
  numbers (kept as lexemes; the widget never stores a number); the order of
  integer-like keys in JSON objects; other tabs writing the same storage.
\<close>

end
